theory Spec2Isabelle
  imports Main "HOL-Library.Multiset"
begin

chapter \<open>The program\<close>

section \<open>Strings of the host language\<close>

text \<open>
  Strings are modelled as \<^typ>\<open>string\<close>: every character is one code unit in the
  range 0..255 (Latin-1), which is exactly the range that \<open>btoa\<close> accepts.
  The built-in string methods the sources call are written out below.
\<close>

text \<open>\<open>s.startsWith(p)\<close>\<close>

definition startsWith :: "string \<Rightarrow> string \<Rightarrow> bool" where
  "startsWith s p = (take (length p) s = p)"

text \<open>\<open>s.replace(pat, rep)\<close> with a string pattern: only the first occurrence is replaced.\<close>

fun replace :: "string \<Rightarrow> string \<Rightarrow> string \<Rightarrow> string" where
  "replace [] pat rep = (if pat = [] then rep else [])"
| "replace (c # cs) pat rep =
     (if startsWith (c # cs) pat then rep @ drop (length pat) (c # cs)
      else c # replace cs pat rep)"

text \<open>White space and line terminators that \<open>trim\<close> strips, within Latin-1.\<close>

definition isWhiteSpace :: "char \<Rightarrow> bool" where
  "isWhiteSpace c = ((of_char c :: nat) \<in> {9, 10, 11, 12, 13, 32, 160})"

definition trim :: "string \<Rightarrow> string" where
  "trim s = rev (dropWhile isWhiteSpace (rev (dropWhile isWhiteSpace s)))"

text \<open>\<open>toLowerCase\<close> within Latin-1: A..Z and the accented capitals move up by 32.\<close>

definition isUpper :: "char \<Rightarrow> bool" where
  "isUpper c = (let n = (of_char c :: nat) in
     (65 \<le> n \<and> n \<le> 90) \<or> (192 \<le> n \<and> n \<le> 214) \<or> (216 \<le> n \<and> n \<le> 222))"

definition lowerChar :: "char \<Rightarrow> char" where
  "lowerChar c = (if isUpper c then char_of ((of_char c :: nat) + 32) else c)"

definition toLowerCase :: "string \<Rightarrow> string" where
  "toLowerCase s = map lowerChar s"

section \<open>Base64 of the platform: \<open>btoa\<close> and \<open>atob\<close>\<close>

text \<open>
  \<open>btoa\<close> and \<open>atob\<close> are functions of the browser, not of the repository. They are
  modelled after their standard: \<open>btoa\<close> is Base64 with padding over the code units of
  its argument, \<open>atob\<close> is the forgiving decoder (ASCII white space is dropped, padding is
  optional, anything else outside the alphabet is an error, modelled as \<open>None\<close>).
\<close>

definition b64alphabet :: string where
  "b64alphabet = ''ABCDEFGHIJKLMNOPQRSTUVWXYZabcdefghijklmnopqrstuvwxyz0123456789+/''"

definition b64char :: "nat \<Rightarrow> char" where
  "b64char i = b64alphabet ! i"

fun index_of :: "char \<Rightarrow> string \<Rightarrow> nat option" where
  "index_of c [] = None"
| "index_of c (x # xs) = (if c = x then Some 0 else map_option Suc (index_of c xs))"

definition b64index :: "char \<Rightarrow> nat option" where
  "b64index c = index_of c b64alphabet"

text \<open>Three octets give four sextets; a rest of one or two octets gives two or three.\<close>

fun sextets :: "nat list \<Rightarrow> nat list" where
  "sextets (a # b # c # rest) =
     [a div 4, (a mod 4) * 16 + b div 16, (b mod 16) * 4 + c div 64, c mod 64] @ sextets rest"
| "sextets [a, b] = [a div 4, (a mod 4) * 16 + b div 16, (b mod 16) * 4]"
| "sextets [a] = [a div 4, (a mod 4) * 16]"
| "sextets [] = []"

definition btoa :: "string \<Rightarrow> string" where
  "btoa s = (let q = sextets (map of_char s)
             in map b64char q @ replicate ((4 - length q mod 4) mod 4) (CHR ''=''))"

text \<open>Four sextets give three octets; the spare bits of a short last group are dropped.\<close>

fun octets :: "nat list \<Rightarrow> nat list" where
  "octets (a # b # c # d # rest) =
     [a * 4 + b div 16, (b mod 16) * 16 + c div 4, (c mod 4) * 64 + d] @ octets rest"
| "octets [a, b, c] = [a * 4 + b div 16, (b mod 16) * 16 + c div 4]"
| "octets [a, b] = [a * 4 + b div 16]"
| "octets [a] = []"
| "octets [] = []"

definition isAsciiWhitespace :: "char \<Rightarrow> bool" where
  "isAsciiWhitespace c = ((of_char c :: nat) \<in> {9, 10, 12, 13, 32})"

text \<open>\<open>s.endsWith(p)\<close>\<close>

definition endsWith :: "string \<Rightarrow> string \<Rightarrow> bool" where
  "endsWith s p = (length p \<le> length s \<and> drop (length s - length p) s = p)"

definition stripPadding :: "string \<Rightarrow> string" where
  "stripPadding d =
     (if length d mod 4 = 0 then
        (if endsWith d ''=='' then take (length d - 2) d
         else if endsWith d ''='' then take (length d - 1) d
         else d)
      else d)"

definition atob :: "string \<Rightarrow> string option" where
  "atob s =
     (let d = stripPadding (filter (\<lambda>c. \<not> isAsciiWhitespace c) s) in
      if length d mod 4 = 1 then None
      else if \<exists>c \<in> set d. b64index c = None then None
      else Some (map char_of (octets (map (\<lambda>c. the (b64index c)) d))))"

section \<open>The encoding of stored amounts (utils/security)\<close>

definition SECRET_KEY_PREFIX :: string where
  "SECRET_KEY_PREFIX = ''THESIS_SECURE_''"

text \<open>\<open>encryptData\<close> on the text of its argument (\<open>String(value)\<close> of a string is the string).\<close>

definition encryptData :: "string \<Rightarrow> string" where
  "encryptData text = ''ENC_'' @ btoa (SECRET_KEY_PREFIX @ text)"

text \<open>
  \<open>decryptData\<close>: the early return for a missing tag, and the \<open>catch\<close> branch that turns
  the exception of \<open>atob\<close> into the default.
\<close>

definition decryptData :: "string \<Rightarrow> string" where
  "decryptData encryptedValue =
     (if \<not> startsWith encryptedValue ''ENC_'' then ''0''
      else case atob (replace encryptedValue ''ENC_'' '''') of
             Some decoded \<Rightarrow> replace decoded SECRET_KEY_PREFIX ''''
           | None \<Rightarrow> ''0'')"

section \<open>Domain records (types)\<close>

text \<open>
  Numbers of the host language (the results of \<open>parseFloat\<close>) are not modelled: their
  type is the parameter \<open>'n\<close>, and \<open>parseFloat\<close> and \<open>localeCompare\<close> are taken
  from an environment record, so that every theorem holds for each choice of them.
  An optional field (\<open>decryptedAmount?\<close>) is an \<open>option\<close>.
\<close>

record 'n env =
  localeCompare :: "string \<Rightarrow> string \<Rightarrow> int"
  parseFloat :: "string \<Rightarrow> 'n"

datatype log_status = SUCCESS | WARN | ERROR

datatype appeal_status = PENDING | APPROVED | REJECTED

record UserMetadata =
  u_uid :: string
  u_email :: string
  u_lastLogin :: string
  u_isLocked :: bool
  u_riskScore :: int

record AccessAppeal =
  a_id :: string
  a_uid :: string
  a_email :: string
  a_reason :: string
  a_status :: appeal_status
  a_timestamp :: string

record Category =
  c_id :: string
  c_name :: string
  c_isSystemDefault :: bool
  c_createdAt :: nat

record AuditLog =
  l_id :: string
  l_timestamp :: nat
  l_actor :: string
  l_action :: string
  l_details :: string
  l_status :: log_status

record 'n CutOff =
  co_id :: string
  co_userId :: string
  co_startDate :: string
  co_endDate :: string
  co_encryptedTotalIncome :: string
  co_encryptedTotalSavings :: string
  co_decryptedIncome :: "'n option"
  co_decryptedSavings :: "'n option"

record 'n Expense =
  e_id :: string
  e_cutOffId :: string
  e_userId :: string
  e_category :: string
  e_date :: string
  e_description :: string
  e_encryptedAmount :: string
  e_decryptedAmount :: "'n option"

record 'n RecurringTemplate =
  t_id :: string
  t_userId :: string
  t_category :: string
  t_description :: string
  t_encryptedAmount :: string
  t_decryptedAmount :: "'n option"

section \<open>The data layer (services/db)\<close>

subsection \<open>Helpers of the host language\<close>

text \<open>\<open>Array.prototype.sort\<close> with a comparator: a stable sort; \<open>a\<close> stays before \<open>b\<close> when
  the comparator does not return a positive number.\<close>

fun insertBy :: "('a \<Rightarrow> 'a \<Rightarrow> int) \<Rightarrow> 'a \<Rightarrow> 'a list \<Rightarrow> 'a list" where
  "insertBy cmp x [] = [x]"
| "insertBy cmp x (y # ys) = (if cmp x y \<le> 0 then x # y # ys else y # insertBy cmp x ys)"

definition sortBy :: "('a \<Rightarrow> 'a \<Rightarrow> int) \<Rightarrow> 'a list \<Rightarrow> 'a list" where
  "sortBy cmp xs = foldr (insertBy cmp) xs []"

text \<open>\<open>String(n)\<close> of a non-negative integer, as in \<open>Date.now().toString()\<close>.\<close>

definition digitChar :: "nat \<Rightarrow> char" where
  "digitChar d = ''0123456789'' ! d"

function natToString :: "nat \<Rightarrow> string" where
  "natToString n =
     (if n < 10 then [digitChar n] else natToString (n div 10) @ [digitChar (n mod 10)])"
  by pat_completeness auto
termination
  by (relation "measure (\<lambda>n. n)") auto

declare natToString.simps [simp del]

subsection \<open>Module state\<close>

text \<open>The keys of the \<open>listeners\<close> object.\<close>

datatype channel =
  key_categories | key_cutoffs | key_expenses | key_logs | key_admin_all_expenses
  | key_admin_all_cutoffs | key_admin_users | key_admin_appeals | key_recurring

text \<open>What a channel carries.\<close>

datatype 'n view =
  Categories "Category list"
  | CutOffs "'n CutOff list"
  | Expenses "'n Expense list"
  | Logs "AuditLog list"
  | Users "UserMetadata list"
  | Appeals "AccessAppeal list"
  | Templates "'n RecurringTemplate list"

text \<open>
  A registered function is either the caller's callback itself (named by a number), or
  the closure \<open>userCallback\<close> of the owner-scoped subscriptions, which holds the
  \<open>userId\<close> and the caller's callback.
\<close>

datatype listener = Callback nat | UserCallback string nat

text \<open>Requests handed to the remote store (\<open>addDoc\<close>, \<open>deleteDoc\<close>), in order of issue.\<close>

datatype 'n payload =
  CategoryPayload string bool
  | LogPayload string string string log_status
  | CutOffPayload "'n CutOff"
  | ExpensePayload "'n Expense"

datatype 'n remote_op = AddDoc string "'n payload" nat | DeleteDoc string string

text \<open>
  The module variables, the \<open>db\<close> handle of the connection module (set or not), and two
  observation fields: \<open>delivered\<close> lists every call of a registered function with the
  view that reached the caller's callback, \<open>remote\<close> lists the requests issued to the
  remote store.
\<close>

record 'n state =
  db :: bool
  MOCK_CATEGORIES :: "Category list"
  MOCK_CUTOFFS :: "'n CutOff list"
  MOCK_EXPENSES :: "'n Expense list"
  MOCK_LOGS :: "AuditLog list"
  MOCK_USERS :: "UserMetadata list"
  MOCK_APPEALS :: "AccessAppeal list"
  MOCK_TEMPLATES :: "'n RecurringTemplate list"
  PENDING_DELETES :: "string set"
  PENDING_DELETE_NAMES :: "string set"
  listeners :: "channel \<Rightarrow> listener list"
  delivered :: "(listener \<times> 'n view) list"
  remote :: "'n remote_op list"

text \<open>The state when the module is loaded.\<close>

definition initial :: "bool \<Rightarrow> 'n state" where
  "initial connected =
     \<lparr>db = connected, MOCK_CATEGORIES = [], MOCK_CUTOFFS = [], MOCK_EXPENSES = [],
      MOCK_LOGS = [], MOCK_USERS = [], MOCK_APPEALS = [], MOCK_TEMPLATES = [],
      PENDING_DELETES = {}, PENDING_DELETE_NAMES = {}, listeners = (\<lambda>_. []),
      delivered = [], remote = []\<rparr>"

subsection \<open>The event system\<close>

text \<open>\<open>allData.filter(x => x.userId === userId)\<close>; a record without \<open>userId\<close> never passes.\<close>

fun filterByUser :: "string \<Rightarrow> 'n view \<Rightarrow> 'n view" where
  "filterByUser userId (CutOffs xs) = CutOffs (filter (\<lambda>c. co_userId c = userId) xs)"
| "filterByUser userId (Expenses xs) = Expenses (filter (\<lambda>e. e_userId e = userId) xs)"
| "filterByUser userId (Templates xs) = Templates (filter (\<lambda>t. t_userId t = userId) xs)"
| "filterByUser userId (Categories xs) = Categories []"
| "filterByUser userId (Logs xs) = Logs []"
| "filterByUser userId (Users xs) = Users []"
| "filterByUser userId (Appeals xs) = Appeals []"

text \<open>
  Calling a registered function with a view: \<open>delivered\<close> gets the function and the
  view that the caller's callback receives from it.
\<close>

fun call :: "listener \<Rightarrow> 'n view \<Rightarrow> 'n state \<Rightarrow> 'n state" where
  "call (Callback cb) data s = s\<lparr>delivered := delivered s @ [(Callback cb, data)]\<rparr>"
| "call (UserCallback userId cb) allData s =
     s\<lparr>delivered := delivered s @ [(UserCallback userId cb, filterByUser userId allData)]\<rparr>"

text \<open>
  \<open>notifyListeners\<close>: every key in use is a key of the \<open>listeners\<close> object, so the guard
  \<open>if (listeners[key])\<close> holds; the copy \<open>safeData\<close> has the contents of \<open>data\<close>.
\<close>

definition notifyListeners :: "channel \<Rightarrow> 'n view \<Rightarrow> 'n state \<Rightarrow> 'n state" where
  "notifyListeners key data s =
     (let safeData = data in fold (\<lambda>cb. call cb safeData) (listeners s key) s)"

text \<open>\<open>listeners[key].push(cb)\<close>\<close>

definition pushListener :: "channel \<Rightarrow> listener \<Rightarrow> 'n state \<Rightarrow> 'n state" where
  "pushListener key cb s = s\<lparr>listeners := (listeners s)(key := listeners s key @ [cb])\<rparr>"

subsection \<open>Audit log\<close>

definition logSystemAction ::
  "string \<Rightarrow> string \<Rightarrow> string \<Rightarrow> log_status \<Rightarrow> nat \<Rightarrow> 'n state \<Rightarrow> 'n state" where
  "logSystemAction actor action details status now s =
     (let newLog = \<lparr>l_id = natToString now, l_timestamp = now, l_actor = actor,
                     l_action = action, l_details = details, l_status = status\<rparr>;
          s1 = s\<lparr>MOCK_LOGS := newLog # MOCK_LOGS s\<rparr>;
          s2 = notifyListeners key_logs (Logs (MOCK_LOGS s1)) s1
      in if db s2
         then s2\<lparr>remote := remote s2 @ [AddDoc ''audit_logs'' (LogPayload actor action details status) now]\<rparr>
         else s2)"

definition subscribeToAuditLogs :: "nat \<Rightarrow> 'n state \<Rightarrow> 'n state" where
  "subscribeToAuditLogs callback s =
     (let s1 = pushListener key_logs (Callback callback) s
      in call (Callback callback) (Logs (MOCK_LOGS s1)) s1)"

subsection \<open>Categories\<close>

text \<open>The natural key of a category: \<open>name.trim().toLowerCase()\<close>.\<close>

definition normalize :: "string \<Rightarrow> string" where
  "normalize name = toLowerCase (trim name)"

definition subscribeToCategories :: "nat \<Rightarrow> 'n state \<Rightarrow> 'n state" where
  "subscribeToCategories callback s =
     (let s1 = pushListener key_categories (Callback callback) s
      in call (Callback callback) (Categories (MOCK_CATEGORIES s1)) s1)"

text \<open>
  The function that \<open>subscribeToCategories\<close> hands to \<open>onSnapshot\<close> (only when \<open>db\<close> is
  set); \<open>docs\<close> is the snapshot, each document already with its id.
\<close>

definition onCategoriesSnapshot :: "'n env \<Rightarrow> Category list \<Rightarrow> 'n state \<Rightarrow> 'n state" where
  "onCategoriesSnapshot E docs s =
     (let categories = docs;
          categories = filter (\<lambda>c.
             let isIdDead = c_id c \<in> PENDING_DELETES s;
                 isNameDead = toLowerCase (trim (c_name c)) \<in> PENDING_DELETE_NAMES s
             in \<not> isIdDead \<and> \<not> isNameDead) categories;
          cloudNames = set (map (\<lambda>c. toLowerCase (c_name c)) categories);
          pendingItems = filter (\<lambda>c.
             let normalized = toLowerCase (trim (c_name c))
             in normalized \<notin> cloudNames \<and> c_id c \<notin> PENDING_DELETES s
                \<and> normalized \<notin> PENDING_DELETE_NAMES s) (MOCK_CATEGORIES s);
          merged = categories @ pendingItems;
          merged = sortBy (\<lambda>a b. localeCompare E (c_name a) (c_name b)) merged;
          s1 = s\<lparr>MOCK_CATEGORIES := merged\<rparr>
      in notifyListeners key_categories (Categories (MOCK_CATEGORIES s1)) s1)"

datatype error = AlreadyExists string | CloudError string

text \<open>How the awaited remote write ended; the deadline of \<open>withTimeout\<close> rejects with
  the message \<open>TIMEOUT\<close>.\<close>

datatype write_outcome = Resolved | Rejected string

text \<open>
  \<open>addSystemCategory\<close>: \<open>now\<close> is the clock, \<open>outcome\<close> the end of the awaited write.
  The part after the \<open>await\<close> only writes the audit log.
\<close>

definition addSystemCategory ::
  "string \<Rightarrow> string \<Rightarrow> nat \<Rightarrow> write_outcome \<Rightarrow> 'n state \<Rightarrow> (error + unit) \<times> 'n state" where
  "addSystemCategory name adminEmail now outcome s =
     (let normalizedName = toLowerCase (trim name);
          s1 = (if normalizedName \<in> PENDING_DELETE_NAMES s
                then s\<lparr>PENDING_DELETE_NAMES := PENDING_DELETE_NAMES s - {normalizedName}\<rparr>
                else s)
      in if \<exists>c \<in> set (MOCK_CATEGORIES s1). toLowerCase (c_name c) = normalizedName
         then (Inl (AlreadyExists name), s1)
         else if \<not> db s1 then
           (let tempId = ''temp_'' @ natToString now;
                newCat = \<lparr>c_id = tempId, c_name = trim name, c_isSystemDefault = False,
                           c_createdAt = now\<rparr>;
                s2 = s1\<lparr>MOCK_CATEGORIES := MOCK_CATEGORIES s1 @ [newCat]\<rparr>;
                s3 = notifyListeners key_categories (Categories (MOCK_CATEGORIES s2)) s2
            in (Inr (), logSystemAction adminEmail ''CATEGORY_ADD''
                          (''Added '' @ name @ '' (Simulation)'') WARN now s3))
         else
           (let s2 = s1\<lparr>remote := remote s1 @
                        [AddDoc ''categories'' (CategoryPayload (trim name) False) now]\<rparr>
            in case outcome of
                 Resolved \<Rightarrow> (Inr (), logSystemAction adminEmail ''CATEGORY_ADD''
                                        (''Added global category: '' @ name) SUCCESS now s2)
               | Rejected message \<Rightarrow> (Inl (CloudError message), s2)))"

text \<open>
  \<open>deleteSystemCategory\<close>: \<open>outcome\<close> is the end of the awaited \<open>deleteDoc\<close>; a rejection
  is only printed.
\<close>

definition deleteSystemCategory ::
  "string \<Rightarrow> string \<Rightarrow> nat \<Rightarrow> write_outcome \<Rightarrow> 'n state \<Rightarrow> 'n state" where
  "deleteSystemCategory ident adminEmail now outcome s =
     (let target = find (\<lambda>c. c_id c = ident) (MOCK_CATEGORIES s);
          s1 = (case target of
                  Some t \<Rightarrow> s\<lparr>PENDING_DELETE_NAMES :=
                                insert (toLowerCase (trim (c_name t))) (PENDING_DELETE_NAMES s)\<rparr>
                | None \<Rightarrow> s);
          s2 = s1\<lparr>PENDING_DELETES := insert ident (PENDING_DELETES s1)\<rparr>;
          s3 = s2\<lparr>MOCK_CATEGORIES := filter (\<lambda>c. c_id c \<noteq> ident) (MOCK_CATEGORIES s2)\<rparr>;
          s4 = notifyListeners key_categories (Categories (MOCK_CATEGORIES s3)) s3
      in if db s4 then
           (if startsWith ident ''temp_''
            then s4\<lparr>PENDING_DELETES := PENDING_DELETES s4 - {ident}\<rparr>
            else
              (let s5 = s4\<lparr>remote := remote s4 @ [DeleteDoc ''categories'' ident]\<rparr>
               in case outcome of
                    Resolved \<Rightarrow> logSystemAction adminEmail ''CATEGORY_DELETE''
                                  (''Removed global category ID: '' @ ident) WARN now s5
                  | Rejected message \<Rightarrow> s5))
         else s4)"

subsection \<open>Users and appeals (subscriptions)\<close>

definition subscribeToUsers :: "nat \<Rightarrow> 'n state \<Rightarrow> 'n state" where
  "subscribeToUsers callback s =
     (let s1 = pushListener key_admin_users (Callback callback) s
      in call (Callback callback) (Users (MOCK_USERS s1)) s1)"

definition subscribeToAppeals :: "nat \<Rightarrow> 'n state \<Rightarrow> 'n state" where
  "subscribeToAppeals callback s =
     (let s1 = pushListener key_admin_appeals (Callback callback) s
      in call (Callback callback) (Appeals (MOCK_APPEALS s1)) s1)"

subsection \<open>Recurring templates\<close>

definition subscribeToTemplates :: "string \<Rightarrow> nat \<Rightarrow> 'n state \<Rightarrow> 'n state" where
  "subscribeToTemplates userId callback s =
     (let userCallback = UserCallback userId callback;
          s1 = pushListener key_recurring userCallback s
      in call userCallback (Templates (MOCK_TEMPLATES s1)) s1)"

text \<open>
  The snapshot function of \<open>subscribeToTemplates\<close>. The query is
  \<open>where('userId', '==', userId)\<close>: of the documents of the collection, \<open>coll\<close>, the
  snapshot holds those of that owner.
\<close>

definition onTemplatesSnapshot ::
  "'n env \<Rightarrow> string \<Rightarrow> 'n RecurringTemplate list \<Rightarrow> 'n state \<Rightarrow> 'n state" where
  "onTemplatesSnapshot E userId coll s =
     (let docs = filter (\<lambda>d. t_userId d = userId) coll;
          templates = map (\<lambda>d. d\<lparr>t_decryptedAmount :=
                         Some (parseFloat E (decryptData (t_encryptedAmount d)))\<rparr>) docs;
          cloudIds = set (map t_id templates);
          optimistic = filter (\<lambda>t. t_userId t = userId \<and> t_id t \<notin> cloudIds) (MOCK_TEMPLATES s);
          others = filter (\<lambda>t. t_userId t \<noteq> userId) (MOCK_TEMPLATES s);
          s1 = s\<lparr>MOCK_TEMPLATES := others @ templates @ optimistic\<rparr>
      in notifyListeners key_recurring (Templates (MOCK_TEMPLATES s1)) s1)"

subsection \<open>Cut-offs\<close>

definition subscribeToCutoffs :: "string \<Rightarrow> nat \<Rightarrow> 'n state \<Rightarrow> 'n state" where
  "subscribeToCutoffs userId callback s =
     (let userCallback = UserCallback userId callback;
          s1 = pushListener key_cutoffs userCallback s
      in call userCallback (CutOffs (MOCK_CUTOFFS s1)) s1)"

definition onCutoffsSnapshot ::
  "'n env \<Rightarrow> string \<Rightarrow> 'n CutOff list \<Rightarrow> 'n state \<Rightarrow> 'n state" where
  "onCutoffsSnapshot E userId coll s =
     (let docs = filter (\<lambda>d. co_userId d = userId) coll;
          cloudData = map (\<lambda>d. d\<lparr>
             co_decryptedIncome := Some (parseFloat E (decryptData (co_encryptedTotalIncome d))),
             co_decryptedSavings := Some (parseFloat E (decryptData (co_encryptedTotalSavings d)))\<rparr>)
             docs;
          cloudData = sortBy (\<lambda>a b. localeCompare E (co_startDate b) (co_startDate a)) cloudData;
          cloudIds = set (map co_id cloudData);
          optimistic = filter (\<lambda>c. co_userId c = userId \<and> co_id c \<notin> cloudIds) (MOCK_CUTOFFS s);
          others = filter (\<lambda>c. co_userId c \<noteq> userId) (MOCK_CUTOFFS s);
          s1 = s\<lparr>MOCK_CUTOFFS := others @ cloudData @ optimistic\<rparr>
      in notifyListeners key_cutoffs (CutOffs (MOCK_CUTOFFS s1)) s1)"

text \<open>\<open>saveCutOff\<close>: the argument has no id (its \<open>co_id\<close> is not read).\<close>

definition saveCutOff :: "'n CutOff \<Rightarrow> string \<Rightarrow> nat \<Rightarrow> write_outcome \<Rightarrow> 'n state \<Rightarrow> 'n state" where
  "saveCutOff cutoff userEmail now outcome s =
     (if \<not> db s then
        (let newCo = cutoff\<lparr>co_id := natToString now\<rparr>;
             s1 = s\<lparr>MOCK_CUTOFFS := newCo # MOCK_CUTOFFS s\<rparr>;
             s2 = notifyListeners key_cutoffs (CutOffs (MOCK_CUTOFFS s1)) s1
         in logSystemAction userEmail ''CUTOFF_CREATE''
              (''Created period '' @ co_startDate cutoff @ '' to '' @ co_endDate cutoff) SUCCESS now s2)
      else
        (let securePayload = cutoff\<lparr>co_decryptedIncome := None, co_decryptedSavings := None\<rparr>;
             s1 = s\<lparr>remote := remote s @ [AddDoc ''cutoffs'' (CutOffPayload securePayload) now]\<rparr>
         in case outcome of
              Resolved \<Rightarrow> logSystemAction userEmail ''CUTOFF_CREATE''
                (''Created period '' @ co_startDate cutoff @ '' to '' @ co_endDate cutoff) SUCCESS now s1
            | Rejected message \<Rightarrow> s1))"

subsection \<open>Expenses\<close>

definition subscribeToExpenses :: "string \<Rightarrow> nat \<Rightarrow> 'n state \<Rightarrow> 'n state" where
  "subscribeToExpenses userId callback s =
     (let userCallback = UserCallback userId callback;
          s1 = pushListener key_expenses userCallback s
      in call userCallback (Expenses (MOCK_EXPENSES s1)) s1)"

definition onExpensesSnapshot ::
  "'n env \<Rightarrow> string \<Rightarrow> 'n Expense list \<Rightarrow> 'n state \<Rightarrow> 'n state" where
  "onExpensesSnapshot E userId coll s =
     (let docs = filter (\<lambda>d. e_userId d = userId) coll;
          cloudData = map (\<lambda>d. d\<lparr>e_decryptedAmount :=
                         Some (parseFloat E (decryptData (e_encryptedAmount d)))\<rparr>) docs;
          cloudData = sortBy (\<lambda>a b. localeCompare E (e_date b) (e_date a)) cloudData;
          cloudIds = set (map e_id cloudData);
          optimistic = filter (\<lambda>c. e_userId c = userId \<and> e_id c \<notin> cloudIds) (MOCK_EXPENSES s);
          others = filter (\<lambda>c. e_userId c \<noteq> userId) (MOCK_EXPENSES s);
          s1 = s\<lparr>MOCK_EXPENSES := others @ cloudData @ optimistic\<rparr>
      in notifyListeners key_expenses (Expenses (MOCK_EXPENSES s1)) s1)"

text \<open>\<open>saveExpense\<close>: the argument has no id (its \<open>e_id\<close> is not read).\<close>

definition saveExpense :: "'n Expense \<Rightarrow> string \<Rightarrow> nat \<Rightarrow> write_outcome \<Rightarrow> 'n state \<Rightarrow> 'n state" where
  "saveExpense expense userEmail now outcome s =
     (if \<not> db s then
        (let newEx = expense\<lparr>e_id := natToString now\<rparr>;
             s1 = s\<lparr>MOCK_EXPENSES := newEx # MOCK_EXPENSES s\<rparr>;
             s2 = notifyListeners key_expenses (Expenses (MOCK_EXPENSES s1)) s1
         in logSystemAction userEmail ''EXPENSE_ADD''
              (''Added expense to '' @ e_category expense) SUCCESS now s2)
      else
        (let securePayload = expense\<lparr>e_decryptedAmount := None\<rparr>;
             s1 = s\<lparr>remote := remote s @ [AddDoc ''expenses'' (ExpensePayload securePayload) now]\<rparr>
         in case outcome of
              Resolved \<Rightarrow> logSystemAction userEmail ''EXPENSE_ADD''
                (''Added expense to '' @ e_category expense) SUCCESS now s1
            | Rejected message \<Rightarrow> s1))"

subsection \<open>Administrator's view of all owners\<close>

definition subscribeToAllExpenses :: "nat \<Rightarrow> 'n state \<Rightarrow> 'n state" where
  "subscribeToAllExpenses callback s =
     (let s1 = pushListener key_admin_all_expenses (Callback callback) s
      in call (Callback callback) (Expenses (MOCK_EXPENSES s1)) s1)"

definition onAllExpensesSnapshot :: "'n env \<Rightarrow> 'n Expense list \<Rightarrow> 'n state \<Rightarrow> 'n state" where
  "onAllExpensesSnapshot E docs s =
     (let cloudData = map (\<lambda>d. d\<lparr>e_decryptedAmount :=
                         Some (parseFloat E (decryptData (e_encryptedAmount d)))\<rparr>) docs;
          others = filter (\<lambda>e. find (\<lambda>c. e_id c = e_id e) cloudData = None) (MOCK_EXPENSES s);
          s1 = s\<lparr>MOCK_EXPENSES := others @ cloudData\<rparr>
      in notifyListeners key_admin_all_expenses (Expenses (MOCK_EXPENSES s1)) s1)"

definition subscribeToAllCutoffs :: "nat \<Rightarrow> 'n state \<Rightarrow> 'n state" where
  "subscribeToAllCutoffs callback s =
     (let s1 = pushListener key_admin_all_cutoffs (Callback callback) s
      in call (Callback callback) (CutOffs (MOCK_CUTOFFS s1)) s1)"

definition onAllCutoffsSnapshot :: "'n env \<Rightarrow> 'n CutOff list \<Rightarrow> 'n state \<Rightarrow> 'n state" where
  "onAllCutoffsSnapshot E docs s =
     (let cloudData = map (\<lambda>d. d\<lparr>co_decryptedIncome :=
                         Some (parseFloat E (decryptData (co_encryptedTotalIncome d)))\<rparr>) docs;
          others = filter (\<lambda>c. find (\<lambda>d. co_id d = co_id c) cloudData = None) (MOCK_CUTOFFS s);
          s1 = s\<lparr>MOCK_CUTOFFS := others @ cloudData\<rparr>
      in notifyListeners key_admin_all_cutoffs (CutOffs (MOCK_CUTOFFS s1)) s1)"

section \<open>The operations as events\<close>

text \<open>
  The calls of the exported functions and the arrivals of snapshots. A snapshot function
  exists only when \<open>db\<close> is set.
\<close>

datatype 'n op =
  LogSystemAction string string string log_status nat
  | SubscribeToAuditLogs nat
  | SubscribeToCategories nat
  | CategoriesSnapshot "Category list"
  | AddSystemCategory string string nat write_outcome
  | DeleteSystemCategory string string nat write_outcome
  | SubscribeToUsers nat
  | SubscribeToAppeals nat
  | SubscribeToTemplates string nat
  | TemplatesSnapshot string "'n RecurringTemplate list"
  | SubscribeToCutoffs string nat
  | CutoffsSnapshot string "'n CutOff list"
  | SaveCutOff "'n CutOff" string nat write_outcome
  | SubscribeToExpenses string nat
  | ExpensesSnapshot string "'n Expense list"
  | SaveExpense "'n Expense" string nat write_outcome
  | SubscribeToAllExpenses nat
  | AllExpensesSnapshot "'n Expense list"
  | SubscribeToAllCutoffs nat
  | AllCutoffsSnapshot "'n CutOff list"

fun step :: "'n env \<Rightarrow> 'n op \<Rightarrow> 'n state \<Rightarrow> 'n state" where
  "step E (LogSystemAction actor action details status now) s =
     logSystemAction actor action details status now s"
| "step E (SubscribeToAuditLogs cb) s = subscribeToAuditLogs cb s"
| "step E (SubscribeToCategories cb) s = subscribeToCategories cb s"
| "step E (CategoriesSnapshot docs) s = (if db s then onCategoriesSnapshot E docs s else s)"
| "step E (AddSystemCategory name adminEmail now outcome) s =
     snd (addSystemCategory name adminEmail now outcome s)"
| "step E (DeleteSystemCategory ident adminEmail now outcome) s =
     deleteSystemCategory ident adminEmail now outcome s"
| "step E (SubscribeToUsers cb) s = subscribeToUsers cb s"
| "step E (SubscribeToAppeals cb) s = subscribeToAppeals cb s"
| "step E (SubscribeToTemplates userId cb) s = subscribeToTemplates userId cb s"
| "step E (TemplatesSnapshot userId coll) s =
     (if db s then onTemplatesSnapshot E userId coll s else s)"
| "step E (SubscribeToCutoffs userId cb) s = subscribeToCutoffs userId cb s"
| "step E (CutoffsSnapshot userId coll) s =
     (if db s then onCutoffsSnapshot E userId coll s else s)"
| "step E (SaveCutOff cutoff userEmail now outcome) s = saveCutOff cutoff userEmail now outcome s"
| "step E (SubscribeToExpenses userId cb) s = subscribeToExpenses userId cb s"
| "step E (ExpensesSnapshot userId coll) s =
     (if db s then onExpensesSnapshot E userId coll s else s)"
| "step E (SaveExpense expense userEmail now outcome) s = saveExpense expense userEmail now outcome s"
| "step E (SubscribeToAllExpenses cb) s = subscribeToAllExpenses cb s"
| "step E (AllExpensesSnapshot docs) s = (if db s then onAllExpensesSnapshot E docs s else s)"
| "step E (SubscribeToAllCutoffs cb) s = subscribeToAllCutoffs cb s"
| "step E (AllCutoffsSnapshot docs) s = (if db s then onAllCutoffsSnapshot E docs s else s)"

text \<open>A run: the events one after the other.\<close>

definition run :: "'n env \<Rightarrow> 'n op list \<Rightarrow> 'n state \<Rightarrow> 'n state" where
  "run E ops s = fold (step E) ops s"

section \<open>Notions used to state the properties\<close>

text \<open>The view that reaches the caller's callback behind a registered function.\<close>

fun viewFor :: "listener \<Rightarrow> 'n view \<Rightarrow> 'n view" where
  "viewFor (Callback cb) data = data"
| "viewFor (UserCallback userId cb) data = filterByUser userId data"

text \<open>The records of a view, by collection.\<close>

fun categoriesOf :: "'n view \<Rightarrow> Category list" where
  "categoriesOf (Categories xs) = xs"
| "categoriesOf _ = []"

fun cutoffsOf :: "'n view \<Rightarrow> 'n CutOff list" where
  "cutoffsOf (CutOffs xs) = xs"
| "cutoffsOf _ = []"

fun expensesOf :: "'n view \<Rightarrow> 'n Expense list" where
  "expensesOf (Expenses xs) = xs"
| "expensesOf _ = []"

fun templatesOf :: "'n view \<Rightarrow> 'n RecurringTemplate list" where
  "templatesOf (Templates xs) = xs"
| "templatesOf _ = []"

text \<open>The calls of registered functions made between an earlier state and a later one.\<close>

definition newDeliveries :: "'n state \<Rightarrow> 'n state \<Rightarrow> (listener \<times> 'n view) list" where
  "newDeliveries s s' = drop (length (delivered s)) (delivered s')"

text \<open>Every owner-scoped record of a view belongs to the owner.\<close>

definition ownedBy :: "string \<Rightarrow> 'n view \<Rightarrow> bool" where
  "ownedBy userId v \<longleftrightarrow>
     (\<forall>c \<in> set (cutoffsOf v). co_userId c = userId) \<and>
     (\<forall>e \<in> set (expensesOf v). e_userId e = userId) \<and>
     (\<forall>t \<in> set (templatesOf v). t_userId t = userId)"

text \<open>Every delivery so far through an owner-scoped subscription held only the owner's records.\<close>

definition isolated :: "'n state \<Rightarrow> bool" where
  "isolated s \<longleftrightarrow>
     (\<forall>(l, v) \<in> set (delivered s). \<forall>userId cb. l = UserCallback userId cb \<longrightarrow> ownedBy userId v)"

section \<open>The event system with arrays as objects\<close>

text \<open>
  An array is an object: a callback is handed a reference and may edit the array in
  place. To see who shares an array with whom, arrays live in a store of cells;
  \<open>fresh\<close> is the next unused reference.
\<close>

type_synonym ref = nat

record 'a store =
  cells :: "ref \<Rightarrow> 'a list"
  fresh :: ref

text \<open>A new array with the given elements, as \<open>[...data]\<close> and \<open>filter\<close> make one.\<close>

definition alloc :: "'a list \<Rightarrow> 'a store \<Rightarrow> ref \<times> 'a store" where
  "alloc xs h = (fresh h, h\<lparr>cells := (cells h)(fresh h := xs), fresh := Suc (fresh h)\<rparr>)"

text \<open>
  A registered function, with what the caller's callback does in place to the array it
  is handed: the callback itself, or the closure \<open>userCallback\<close> with its test of the owner.
\<close>

datatype 'a observer =
  CallbackOf nat "'a list \<Rightarrow> 'a list"
  | UserCallbackOf "'a \<Rightarrow> bool" nat "'a list \<Rightarrow> 'a list"

text \<open>
  Calling a registered function with a reference. The trace gets the callback, the
  reference it is handed and what the array holds at that moment; then the callback's
  edit is applied to that array.
\<close>

fun callWith :: "'a observer \<Rightarrow> ref \<Rightarrow> (nat \<times> ref \<times> 'a list) list \<times> 'a store
    \<Rightarrow> (nat \<times> ref \<times> 'a list) list \<times> 'a store" where
  "callWith (CallbackOf cb edit) r (trace, h) =
     (trace @ [(cb, r, cells h r)], h\<lparr>cells := (cells h)(r := edit (cells h r))\<rparr>)"
| "callWith (UserCallbackOf owns cb edit) r (trace, h) =
     (let (r', h1) = alloc (filter owns (cells h r)) h
      in (trace @ [(cb, r', cells h1 r')], h1\<lparr>cells := (cells h1)(r' := edit (cells h1 r'))\<rparr>))"

text \<open>\<open>notifyListeners\<close> on references: one copy \<open>safeData\<close>, handed to every function.\<close>

definition notifyListenersWith ::
  "'a observer list \<Rightarrow> ref \<Rightarrow> 'a store \<Rightarrow> (nat \<times> ref \<times> 'a list) list \<times> 'a store" where
  "notifyListenersWith cbs data h =
     (let (safeData, h1) = alloc (cells h data) h
      in fold (\<lambda>cb. callWith cb safeData) cbs ([], h1))"

text \<open>What a registered function passes on to the caller's callback, by contents.\<close>

fun handedTo :: "'a observer \<Rightarrow> 'a list \<Rightarrow> 'a list" where
  "handedTo (CallbackOf cb edit) xs = xs"
| "handedTo (UserCallbackOf owns cb edit) xs = filter owns xs"

text \<open>The references handed out in a publish: the copy to every callback registered as it
  is, a new array to every \<open>userCallback\<close>.\<close>

fun refsHanded :: "ref \<Rightarrow> ref \<Rightarrow> 'a observer list \<Rightarrow> ref list" where
  "refsHanded safe n [] = []"
| "refsHanded safe n (CallbackOf cb edit # cbs) = safe # refsHanded safe n cbs"
| "refsHanded safe n (UserCallbackOf owns cb edit # cbs) = n # refsHanded safe (Suc n) cbs"

text \<open>Two callbacks: one appends to the array it is handed, one leaves it alone.\<close>

definition pushNine :: "nat list \<Rightarrow> nat list" where
  "pushNine xs = xs @ [9]"

definition leaveAlone :: "nat list \<Rightarrow> nat list" where
  "leaveAlone xs = xs"

definition isFive :: "nat \<Rightarrow> bool" where
  "isFive x = (x = 5)"

text \<open>A store with the cached array \<open>[5]\<close> at reference 0.\<close>

definition exampleStore :: "nat store" where
  "exampleStore = \<lparr>cells = (\<lambda>_. [])(0 := [5]), fresh = 1\<rparr>"

section \<open>A concrete environment and concrete states\<close>

text \<open>A comparison of strings by code units, to run the functions on examples.\<close>

fun compareStrings :: "string \<Rightarrow> string \<Rightarrow> int" where
  "compareStrings [] [] = 0"
| "compareStrings [] (y # ys) = - 1"
| "compareStrings (x # xs) [] = 1"
| "compareStrings (x # xs) (y # ys) =
     (if (of_char x :: nat) < of_char y then - 1
      else if (of_char y :: nat) < of_char x then 1
      else compareStrings xs ys)"

definition exampleEnv :: "string env" where
  "exampleEnv = \<lparr>localeCompare = compareStrings, parseFloat = (\<lambda>s. s)\<rparr>"

definition food :: Category where
  "food = \<lparr>c_id = ''c1'', c_name = ''Food'', c_isSystemDefault = False, c_createdAt = 0\<rparr>"

definition transport :: Category where
  "transport = \<lparr>c_id = ''c2'', c_name = ''Transport'', c_isSystemDefault = False, c_createdAt = 0\<rparr>"

definition exampleState :: "string state" where
  "exampleState = (initial True)\<lparr>MOCK_CATEGORIES := [food, transport],
     listeners := (\<lambda>_. [])(key_categories := [Callback 0])\<rparr>"

definition newFood :: Category where
  "newFood = \<lparr>c_id = ''c9'', c_name = ''Food'', c_isSystemDefault = False, c_createdAt = 8\<rparr>"

definition spacedFood :: Category where
  "spacedFood = \<lparr>c_id = ''c1'', c_name = '' Food'', c_isSystemDefault = False, c_createdAt = 0\<rparr>"

definition cutoffOf :: "string \<Rightarrow> string \<Rightarrow> string CutOff" where
  "cutoffOf ident userId =
     \<lparr>co_id = ident, co_userId = userId, co_startDate = ''2024-01-01'', co_endDate = ''2024-01-15'',
      co_encryptedTotalIncome = ''100'', co_encryptedTotalSavings = ''ENC_!'',
      co_decryptedIncome = None, co_decryptedSavings = None\<rparr>"

definition expenseOf :: "string \<Rightarrow> string \<Rightarrow> string Expense" where
  "expenseOf ident userId =
     \<lparr>e_id = ident, e_cutOffId = ''k1'', e_userId = userId, e_category = ''Food'',
      e_date = ''2024-01-02'', e_description = ''lunch'', e_encryptedAmount = ''ENC_!'',
      e_decryptedAmount = Some ''12''\<rparr>"

definition paidCutoff :: "string CutOff" where
  "paidCutoff =
     \<lparr>co_id = ''k3'', co_userId = ''A'', co_startDate = ''2024-02-01'', co_endDate = ''2024-02-15'',
      co_encryptedTotalIncome = ''ENC_VEhFU0lTX1NFQ1VSRV8yNTA='',
      co_encryptedTotalSavings = ''ENC_VEhFU0lTX1NFQ1VSRV8xMg=='',
      co_decryptedIncome = None, co_decryptedSavings = None\<rparr>"

chapter \<open>Properties\<close>



section \<open>Base64 decoding inverts encoding\<close>

lemma d16: "b < 256 \<Longrightarrow> b div 16 < (16::nat)"
  by (simp add: div_less_iff_less_mult)

lemma d64: "c < 256 \<Longrightarrow> c div 64 < (4::nat)"
  by (simp add: div_less_iff_less_mult)

lemma d4: "a < 256 \<Longrightarrow> a div 4 < (64::nat)"
  by (simp add: div_less_iff_less_mult)

lemma hi_lo_div: "x < n \<Longrightarrow> (h * n + x) div n = (h::nat)"
  by simp

lemma hi_lo_mod: "x < n \<Longrightarrow> (h * n + x) mod n = (x::nat)"
  by simp

lemma oct1: "b < 256 \<Longrightarrow> (a div 4) * 4 + ((a mod 4) * 16 + b div 16) div 16 = (a::nat)"
  using hi_lo_div[OF d16, of b "a mod 4"] by simp

lemma oct2: "b < 256 \<Longrightarrow> c < 256 \<Longrightarrow>
  (((a mod 4) * 16 + b div 16) mod 16) * 16 + ((b mod 16) * 4 + c div 64) div 4 = (b::nat)"
  using hi_lo_mod[OF d16, of b "a mod 4"] hi_lo_div[OF d64, of c "b mod 16"] by simp

lemma oct3: "c < 256 \<Longrightarrow> (((b mod 16) * 4 + c div 64) mod 4) * 64 + c mod 64 = (c::nat)"
  using hi_lo_mod[OF d64, of c "b mod 16"] by simp

lemma oct2': "b < 256 \<Longrightarrow>
  (((a mod 4) * 16 + b div 16) mod 16) * 16 + ((b mod 16) * 4) div 4 = (b::nat)"
  using hi_lo_mod[OF d16, of b "a mod 4"] by simp

lemma octets_sextets: "\<forall>x\<in>set bs. x < 256 \<Longrightarrow> octets (sextets bs) = bs"
proof (induction bs rule: sextets.induct)
  case (1 a b c rest)
  then have "a < 256" "b < 256" "c < 256" and r: "octets (sextets rest) = rest" by auto
  then show ?case using oct1[of b a] oct2[of b c a] oct3[of c b] by simp
next
  case (2 a b)
  then have "a < 256" "b < 256" by auto
  then show ?case using oct1[of b a] oct2'[of b a] by simp
next
  case (3 a)
  then show ?case by simp
next
  case 4
  then show ?case by simp
qed

lemma sextets_bound: "\<forall>x\<in>set bs. x < 256 \<Longrightarrow> \<forall>q\<in>set (sextets bs). q < 64"
proof (induction bs rule: sextets.induct)
  case (1 a b c rest)
  then have "a < 256" "b < 256" "c < 256" and r: "\<forall>q\<in>set (sextets rest). q < 64" by auto
  moreover have "(a mod 4) * 16 + b div 16 < 64" using d16[OF \<open>b < 256\<close>] by simp
  moreover have "(b mod 16) * 4 + c div 64 < 64" using d64[OF \<open>c < 256\<close>] by simp
  ultimately show ?case using d4[of a] by simp
next
  case (2 a b)
  then have "a < 256" "b < 256" by auto
  moreover have "(a mod 4) * 16 + b div 16 < 64" using d16[OF \<open>b < 256\<close>] by simp
  ultimately show ?case using d4[of a] by simp
next
  case (3 a)
  then show ?case using d4[of a] by simp
next
  case 4
  then show ?case by simp
qed

lemma length_sextets_mod: "length (sextets bs) mod 4 \<in> {0, 2, 3}"
  by (induction bs rule: sextets.induct) auto

lemma index_of_nth: "distinct xs \<Longrightarrow> i < length xs \<Longrightarrow> index_of (xs ! i) xs = Some i"
proof (induction xs arbitrary: i)
  case Nil
  then show ?case by simp
next
  case (Cons x xs)
  show ?case
  proof (cases i)
    case 0
    then show ?thesis by simp
  next
    case (Suc j)
    with Cons.prems have "xs ! j \<noteq> x" "j < length xs" "distinct xs" by auto
    with Cons.IH[of j] Suc show ?thesis by simp
  qed
qed

lemma distinct_b64alphabet: "distinct b64alphabet"
  by (simp add: b64alphabet_def)

lemma length_b64alphabet: "length b64alphabet = 64"
  by (simp add: b64alphabet_def)

lemma b64index_b64char: "i < 64 \<Longrightarrow> b64index (b64char i) = Some i"
  by (simp add: b64index_def b64char_def index_of_nth distinct_b64alphabet length_b64alphabet)

lemma b64char_in: "i < 64 \<Longrightarrow> b64char i \<in> set b64alphabet"
  by (simp add: b64char_def length_b64alphabet)

lemma b64alphabet_no_pad: "c \<in> set b64alphabet \<Longrightarrow> c \<noteq> CHR ''=''"
  by (auto simp: b64alphabet_def)

lemma b64alphabet_no_ws: "c \<in> set b64alphabet \<Longrightarrow> \<not> isAsciiWhitespace c"
  by (auto simp: b64alphabet_def isAsciiWhitespace_def)

lemma pad_no_ws: "\<not> isAsciiWhitespace (CHR ''='')"
  by (simp add: isAsciiWhitespace_def)

lemma endsWith_iff: "endsWith s p \<longleftrightarrow> (\<exists>t. s = t @ p)"
proof
  assume "endsWith s p"
  then have "s = take (length s - length p) s @ p"
    unfolding endsWith_def by (metis append_take_drop_id)
  then show "\<exists>t. s = t @ p" ..
next
  assume "\<exists>t. s = t @ p"
  then show "endsWith s p" by (auto simp: endsWith_def)
qed

lemma endsWith_pad1: "endsWith s ''='' \<longleftrightarrow> s \<noteq> [] \<and> last s = CHR ''=''"
  unfolding endsWith_iff
  by (metis last_snoc snoc_eq_iff_butlast)

lemma endsWith_pad2: "endsWith s ''=='' \<Longrightarrow> endsWith s ''=''"
proof -
  assume "endsWith s ''==''"
  then obtain t where "s = t @ ''==''" unfolding endsWith_iff by blast
  then have "s = (t @ ''='') @ ''=''" by simp
  then show ?thesis unfolding endsWith_iff by blast
qed

lemma stripPadding_0:
  assumes "\<not> endsWith body ''=''"
  shows "stripPadding body = body"
  using assms endsWith_pad2[of body] by (auto simp: stripPadding_def)

lemma stripPadding_1:
  assumes nb: "\<not> endsWith body ''=''" and len: "(length body + 1) mod 4 = 0"
  shows "stripPadding (body @ ''='') = body"
proof -
  have "\<not> endsWith (body @ ''='') ''==''"
  proof
    assume "endsWith (body @ ''='') ''==''"
    then obtain t where "body @ ''='' = t @ ''==''" unfolding endsWith_iff by blast
    then have "body @ ''='' = (t @ ''='') @ ''=''" by simp
    then have "body = t @ ''=''" by (simp only: append_same_eq)
    then show False using nb endsWith_iff by blast
  qed
  moreover have "endsWith (body @ ''='') ''=''" unfolding endsWith_iff by blast
  ultimately show ?thesis using len by (simp add: stripPadding_def)
qed

lemma stripPadding_2:
  assumes len: "(length body + 2) mod 4 = 0"
  shows "stripPadding (body @ ''=='') = body"
proof -
  have "endsWith (body @ ''=='') ''==''" unfolding endsWith_iff by blast
  then show ?thesis using len by (simp add: stripPadding_def)
qed

lemma stripPadding_body:
  assumes nopad: "\<forall>c\<in>set body. c \<noteq> CHR ''=''"
    and k: "k \<le> 2"
    and len: "(length body + k) mod 4 = 0"
  shows "stripPadding (body @ replicate k (CHR ''='')) = body"
proof -
  have nb: "\<not> endsWith body ''=''"
  proof
    assume "endsWith body ''=''"
    then have "body \<noteq> []" and "last body = CHR ''=''" by (simp_all add: endsWith_pad1)
    then have "CHR ''='' \<in> set body" using last_in_set[of body] by simp
    with nopad show False by blast
  qed
  consider "k = 0" | "k = 1" | "k = 2" using k by linarith
  then show ?thesis
  proof cases
    case 1
    then show ?thesis using stripPadding_0[OF nb] by simp
  next
    case 2
    then show ?thesis using stripPadding_1[OF nb] len by simp
  next
    case 3
    have "replicate 2 (CHR ''='') = ''==''" unfolding numeral_2_eq_2 by simp
    then show ?thesis using 3 stripPadding_2[of body] len by simp
  qed
qed

lemma atob_btoa: "atob (btoa s) = Some s"
proof -
  define bs where "bs = map (of_char :: char \<Rightarrow> nat) s"
  define q where "q = sextets bs"
  define body where "body = map b64char q"
  define k where "k = (4 - length q mod 4) mod 4"
  have bnd: "\<forall>x\<in>set bs. x < 256" by (auto simp: bs_def)
  have q64: "\<forall>x\<in>set q. x < 64" unfolding q_def using sextets_bound[OF bnd] .
  have body_alpha: "\<forall>c\<in>set body. c \<in> set b64alphabet"
    using q64 by (auto simp: body_def b64char_in)
  have lm: "length q mod 4 \<in> {0, 2, 3}" unfolding q_def by (rule length_sextets_mod)
  then have k2: "k \<le> 2" and len0: "(length body + k) mod 4 = 0"
    and bodymod: "length body mod 4 \<noteq> 1"
    unfolding k_def body_def by (auto simp: mod_Suc)
  have enc: "btoa s = body @ replicate k (CHR ''='')"
    by (simp add: btoa_def Let_def bs_def q_def body_def k_def)
  have filt: "filter (\<lambda>c. \<not> isAsciiWhitespace c) (btoa s) = btoa s"
    unfolding enc using body_alpha by (auto simp: b64alphabet_no_ws pad_no_ws filter_id_conv)
  have strip: "stripPadding (btoa s) = body"
    unfolding enc using body_alpha k2 len0
    by (intro stripPadding_body) (auto dest: b64alphabet_no_pad)
  have idx: "map (\<lambda>c. the (b64index c)) body = q"
    unfolding body_def using q64 by (simp add: map_idI b64index_b64char comp_def)
  have noNone: "\<not> (\<exists>c\<in>set body. b64index c = None)"
    unfolding body_def using q64 by (auto simp: b64index_b64char)
  have "map char_of (octets q) = s"
    unfolding q_def using octets_sextets[OF bnd] by (simp add: bs_def comp_def)
  then show ?thesis
    using bodymod noNone by (simp add: atob_def filt strip idx Let_def)
qed



lemma startsWith_append: "startsWith (p @ x) p"
  by (simp add: startsWith_def)

lemma replace_prefix: "replace (p @ x) p r = r @ x"
proof (cases "p @ x")
  case Nil
  then show ?thesis by simp
next
  case (Cons c cs)
  have "replace (c # cs) p r = r @ drop (length p) (c # cs)"
    using startsWith_append[of p x] Cons by simp
  then show ?thesis using Cons by (metis append_eq_conv_conj)
qed

text \<open>
  C10. Encode/decode round-trip: for every (Latin-1) string, decrypting the encryption
  gives the string back.
\<close>

theorem decryptData_encryptData: "decryptData (encryptData s) = s"
proof -
  have "startsWith (encryptData s) ''ENC_''"
    unfolding encryptData_def by (rule startsWith_append)
  moreover have "replace (encryptData s) ''ENC_'' [] = btoa (SECRET_KEY_PREFIX @ s)"
    unfolding encryptData_def using replace_prefix[of "''ENC_''" _ "[]"] by simp
  moreover have "replace (SECRET_KEY_PREFIX @ s) SECRET_KEY_PREFIX [] = s"
    using replace_prefix[of SECRET_KEY_PREFIX s "[]"] by simp
  ultimately show ?thesis by (simp add: decryptData_def atob_btoa)
qed


section \<open>The event system only records deliveries\<close>

lemma call_delivered: "delivered (call l v s) = delivered s @ [(l, viewFor l v)]"
  by (cases l) simp_all

lemma call_frame:
  "db (call l v s) = db s"
  "MOCK_CATEGORIES (call l v s) = MOCK_CATEGORIES s"
  "MOCK_CUTOFFS (call l v s) = MOCK_CUTOFFS s"
  "MOCK_EXPENSES (call l v s) = MOCK_EXPENSES s"
  "MOCK_LOGS (call l v s) = MOCK_LOGS s"
  "MOCK_USERS (call l v s) = MOCK_USERS s"
  "MOCK_APPEALS (call l v s) = MOCK_APPEALS s"
  "MOCK_TEMPLATES (call l v s) = MOCK_TEMPLATES s"
  "PENDING_DELETES (call l v s) = PENDING_DELETES s"
  "PENDING_DELETE_NAMES (call l v s) = PENDING_DELETE_NAMES s"
  "listeners (call l v s) = listeners s"
  "remote (call l v s) = remote s"
  by (cases l; simp)+

lemma fold_call_delivered:
  "delivered (fold (\<lambda>cb. call cb v) ls s) = delivered s @ map (\<lambda>l. (l, viewFor l v)) ls"
  by (induction ls arbitrary: s) (simp_all add: call_delivered)

lemma fold_call_frame:
  "db (fold (\<lambda>cb. call cb v) ls s) = db s"
  "MOCK_CATEGORIES (fold (\<lambda>cb. call cb v) ls s) = MOCK_CATEGORIES s"
  "MOCK_CUTOFFS (fold (\<lambda>cb. call cb v) ls s) = MOCK_CUTOFFS s"
  "MOCK_EXPENSES (fold (\<lambda>cb. call cb v) ls s) = MOCK_EXPENSES s"
  "MOCK_LOGS (fold (\<lambda>cb. call cb v) ls s) = MOCK_LOGS s"
  "MOCK_USERS (fold (\<lambda>cb. call cb v) ls s) = MOCK_USERS s"
  "MOCK_APPEALS (fold (\<lambda>cb. call cb v) ls s) = MOCK_APPEALS s"
  "MOCK_TEMPLATES (fold (\<lambda>cb. call cb v) ls s) = MOCK_TEMPLATES s"
  "PENDING_DELETES (fold (\<lambda>cb. call cb v) ls s) = PENDING_DELETES s"
  "PENDING_DELETE_NAMES (fold (\<lambda>cb. call cb v) ls s) = PENDING_DELETE_NAMES s"
  "listeners (fold (\<lambda>cb. call cb v) ls s) = listeners s"
  "remote (fold (\<lambda>cb. call cb v) ls s) = remote s"
  by (induction ls arbitrary: s; simp add: call_frame)+

lemma notify_delivered:
  "delivered (notifyListeners key v s) = delivered s @ map (\<lambda>l. (l, viewFor l v)) (listeners s key)"
  by (simp add: notifyListeners_def fold_call_delivered)

lemma notify_frame:
  "db (notifyListeners key v s) = db s"
  "MOCK_CATEGORIES (notifyListeners key v s) = MOCK_CATEGORIES s"
  "MOCK_CUTOFFS (notifyListeners key v s) = MOCK_CUTOFFS s"
  "MOCK_EXPENSES (notifyListeners key v s) = MOCK_EXPENSES s"
  "MOCK_LOGS (notifyListeners key v s) = MOCK_LOGS s"
  "MOCK_USERS (notifyListeners key v s) = MOCK_USERS s"
  "MOCK_APPEALS (notifyListeners key v s) = MOCK_APPEALS s"
  "MOCK_TEMPLATES (notifyListeners key v s) = MOCK_TEMPLATES s"
  "PENDING_DELETES (notifyListeners key v s) = PENDING_DELETES s"
  "PENDING_DELETE_NAMES (notifyListeners key v s) = PENDING_DELETE_NAMES s"
  "listeners (notifyListeners key v s) = listeners s"
  "remote (notifyListeners key v s) = remote s"
  by (simp_all add: notifyListeners_def fold_call_frame)

lemma newDeliveries_append: "delivered s' = delivered s @ ds \<Longrightarrow> newDeliveries s s' = ds"
  by (simp add: newDeliveries_def)

lemma logSystemAction_frame:
  "db (logSystemAction a b c d n s) = db s"
  "MOCK_CATEGORIES (logSystemAction a b c d n s) = MOCK_CATEGORIES s"
  "MOCK_CUTOFFS (logSystemAction a b c d n s) = MOCK_CUTOFFS s"
  "MOCK_EXPENSES (logSystemAction a b c d n s) = MOCK_EXPENSES s"
  "MOCK_TEMPLATES (logSystemAction a b c d n s) = MOCK_TEMPLATES s"
  "PENDING_DELETES (logSystemAction a b c d n s) = PENDING_DELETES s"
  "PENDING_DELETE_NAMES (logSystemAction a b c d n s) = PENDING_DELETE_NAMES s"
  "listeners (logSystemAction a b c d n s) = listeners s"
  by (simp_all add: logSystemAction_def Let_def notify_frame)

lemma logSystemAction_delivered:
  "delivered (logSystemAction a b c d n s) =
     delivered s @ map (\<lambda>l. (l, viewFor l (Logs (\<lparr>l_id = natToString n, l_timestamp = n,
        l_actor = a, l_action = b, l_details = c, l_status = d\<rparr> # MOCK_LOGS s))))
        (listeners s key_logs)"
  by (simp add: logSystemAction_def Let_def notify_delivered notify_frame)

section \<open>Sorting keeps the elements\<close>

lemma mset_insertBy: "mset (insertBy cmp x xs) = add_mset x (mset xs)"
  by (induction xs) simp_all

lemma mset_sortBy: "mset (sortBy cmp xs) = mset xs"
  unfolding sortBy_def by (induction xs) (simp_all add: mset_insertBy)

lemma set_sortBy: "set (sortBy cmp xs) = set xs"
  using mset_sortBy[of cmp xs] by (metis set_mset_mset)

lemma length_sortBy: "length (sortBy cmp xs) = length xs"
  using mset_sortBy[of cmp xs] by (metis size_mset)

lemma filter_insertBy_length:
  "length (filter P (insertBy cmp x xs)) = length (filter P (x # xs))"
  by (induction xs) simp_all

lemma filter_sortBy_length: "length (filter P (sortBy cmp xs)) = length (filter P xs)"
  unfolding sortBy_def by (induction xs) (simp_all add: filter_insertBy_length)

section \<open>The categories snapshot\<close>

lemma onCategoriesSnapshot_tombstones:
  "PENDING_DELETES (onCategoriesSnapshot E docs s) = PENDING_DELETES s"
  "PENDING_DELETE_NAMES (onCategoriesSnapshot E docs s) = PENDING_DELETE_NAMES s"
  by (simp_all add: onCategoriesSnapshot_def Let_def notify_frame)

lemma onCategoriesSnapshot_listeners:
  "listeners (onCategoriesSnapshot E docs s) = listeners s"
  by (simp add: onCategoriesSnapshot_def Let_def notify_frame)

lemma onCategoriesSnapshot_alive:
  assumes "c \<in> set (MOCK_CATEGORIES (onCategoriesSnapshot E docs s))"
  shows "c_id c \<notin> PENDING_DELETES s \<and> normalize (c_name c) \<notin> PENDING_DELETE_NAMES s"
  using assms
  by (auto simp: onCategoriesSnapshot_def Let_def notify_frame set_sortBy normalize_def)

lemma onCategoriesSnapshot_delivered:
  "delivered (onCategoriesSnapshot E docs s) =
     delivered s @ map (\<lambda>l. (l, viewFor l (Categories (MOCK_CATEGORIES (onCategoriesSnapshot E docs s)))))
       (listeners s key_categories)"
  by (simp add: onCategoriesSnapshot_def Let_def notify_frame notify_delivered)

lemma categoriesOf_viewFor: "set (categoriesOf (viewFor l (Categories xs))) \<subseteq> set xs"
  by (cases l) simp_all

lemma fold_onCategoriesSnapshot_tombstones:
  "PENDING_DELETES (fold (onCategoriesSnapshot E) snaps s) = PENDING_DELETES s"
  "PENDING_DELETE_NAMES (fold (onCategoriesSnapshot E) snaps s) = PENDING_DELETE_NAMES s"
  by (induction snaps arbitrary: s; simp add: onCategoriesSnapshot_tombstones)+

text \<open>
  C1. Tombstone precedence: when the id of a category \<open>R\<close> is in the pending-delete ids
  and its key in the pending-delete names, then after any number of earlier snapshots the
  next snapshot, whatever it holds, leaves \<open>R\<close> out of the cache and out of every view
  handed to a registered function.
\<close>

theorem tombstone_precedence:
  assumes "c_id R \<in> PENDING_DELETES s"
    and "normalize (c_name R) \<in> PENDING_DELETE_NAMES s"
  shows "R \<notin> set (MOCK_CATEGORIES
            (onCategoriesSnapshot E docs (fold (onCategoriesSnapshot E) earlier s))) \<and>
         (\<forall>(l, v) \<in> set (newDeliveries (fold (onCategoriesSnapshot E) earlier s)
              (onCategoriesSnapshot E docs (fold (onCategoriesSnapshot E) earlier s))).
            R \<notin> set (categoriesOf v))"
proof -
  define s1 where "s1 = fold (onCategoriesSnapshot E) earlier s"
  define s2 where "s2 = onCategoriesSnapshot E docs s1"
  have dead: "c_id R \<in> PENDING_DELETES s1"
    unfolding s1_def using assms(1) by (simp add: fold_onCategoriesSnapshot_tombstones)
  have cache: "R \<notin> set (MOCK_CATEGORIES s2)"
    unfolding s2_def using onCategoriesSnapshot_alive[of R E docs s1] dead by blast
  have "newDeliveries s1 s2 =
      map (\<lambda>l. (l, viewFor l (Categories (MOCK_CATEGORIES s2)))) (listeners s1 key_categories)"
    unfolding s2_def by (rule newDeliveries_append) (rule onCategoriesSnapshot_delivered)
  then have "\<forall>(l, v) \<in> set (newDeliveries s1 s2). R \<notin> set (categoriesOf v)"
    using cache categoriesOf_viewFor by fastforce
  with cache show ?thesis unfolding s1_def s2_def by simp
qed

lemma lower_Food: "toLowerCase (trim ''Food'') = ''food''"
  by code_simp

lemma lower_Transport: "toLowerCase (trim ''Transport'') = ''transport''"
  by code_simp

lemma deleted_example:
  "PENDING_DELETES (deleteSystemCategory ''c1'' ''admin'' 7 Resolved exampleState) = {''c1''}"
  "PENDING_DELETE_NAMES (deleteSystemCategory ''c1'' ''admin'' 7 Resolved exampleState) = {''food''}"
  by (simp_all add: deleteSystemCategory_def exampleState_def initial_def food_def transport_def
      Let_def notify_frame logSystemAction_frame startsWith_def lower_Food)

theorem tombstone_precedence_witness:
  "c_id food \<in> PENDING_DELETES (deleteSystemCategory ''c1'' ''admin'' 7 Resolved exampleState) \<and>
   normalize (c_name food) \<in>
     PENDING_DELETE_NAMES (deleteSystemCategory ''c1'' ''admin'' 7 Resolved exampleState) \<and>
   food \<notin> set (MOCK_CATEGORIES (onCategoriesSnapshot exampleEnv [food, transport]
      (fold (onCategoriesSnapshot exampleEnv) [[food]]
         (deleteSystemCategory ''c1'' ''admin'' 7 Resolved exampleState))))"
proof -
  have a: "c_id food \<in> PENDING_DELETES (deleteSystemCategory ''c1'' ''admin'' 7 Resolved exampleState)"
    by (simp add: deleted_example food_def)
  have b: "normalize (c_name food) \<in>
     PENDING_DELETE_NAMES (deleteSystemCategory ''c1'' ''admin'' 7 Resolved exampleState)"
    by (simp add: deleted_example food_def normalize_def lower_Food)
  show ?thesis
    using a b tombstone_precedence[OF a b, of exampleEnv "[food, transport]" "[[food]]"] by blast
qed

section \<open>Tombstones are removed by a create only\<close>

lemma addSystemCategory_tombstones:
  "PENDING_DELETE_NAMES (snd (addSystemCategory name adminEmail now outcome s)) =
     PENDING_DELETE_NAMES s - {normalize name}"
  "PENDING_DELETES (snd (addSystemCategory name adminEmail now outcome s)) = PENDING_DELETES s"
  by (auto simp: addSystemCategory_def Let_def normalize_def notify_frame logSystemAction_frame
      split: write_outcome.splits)

lemma deleteSystemCategory_names:
  "PENDING_DELETE_NAMES (deleteSystemCategory ident adminEmail now outcome s) =
     (case find (\<lambda>c. c_id c = ident) (MOCK_CATEGORIES s) of
        Some t \<Rightarrow> insert (normalize (c_name t)) (PENDING_DELETE_NAMES s)
      | None \<Rightarrow> PENDING_DELETE_NAMES s)"
  by (auto simp: deleteSystemCategory_def Let_def normalize_def notify_frame logSystemAction_frame
      split: write_outcome.splits option.splits)

lemma deleteSystemCategory_ids:
  "PENDING_DELETES (deleteSystemCategory ident adminEmail now outcome s) =
     (if db s \<and> startsWith ident ''temp_'' then PENDING_DELETES s - {ident}
      else insert ident (PENDING_DELETES s))"
  by (auto simp: deleteSystemCategory_def Let_def notify_frame logSystemAction_frame
      split: write_outcome.splits option.splits)

text \<open>
  C7, as the code has it. The snapshot function leaves both tombstone sets as they are,
  whatever the snapshot holds; a name leaves the pending-delete names when
  \<open>addSystemCategory\<close> is called with a name of that key, and that call leaves the
  pending-delete ids as they are.
\<close>

theorem tombstones_kept_by_snapshot:
  "PENDING_DELETES (onCategoriesSnapshot E docs s) = PENDING_DELETES s \<and>
   PENDING_DELETE_NAMES (onCategoriesSnapshot E docs s) = PENDING_DELETE_NAMES s \<and>
   PENDING_DELETE_NAMES (snd (addSystemCategory name adminEmail now outcome s)) =
     PENDING_DELETE_NAMES s - {normalize name} \<and>
   PENDING_DELETES (snd (addSystemCategory name adminEmail now outcome s)) = PENDING_DELETES s"
  by (simp add: onCategoriesSnapshot_tombstones addSystemCategory_tombstones)

text \<open>
  C7 as stated fails: after the delete of \<open>food\<close>, a snapshot without \<open>food\<close> arrives, and
  the id and the key of \<open>food\<close> are still pending.
\<close>

theorem tombstone_removal_counterexample:
  "food \<notin> set [transport] \<and>
   c_id food \<in> PENDING_DELETES (onCategoriesSnapshot exampleEnv [transport]
      (deleteSystemCategory ''c1'' ''admin'' 7 Resolved exampleState)) \<and>
   normalize (c_name food) \<in> PENDING_DELETE_NAMES (onCategoriesSnapshot exampleEnv [transport]
      (deleteSystemCategory ''c1'' ''admin'' 7 Resolved exampleState))"
  by (simp add: onCategoriesSnapshot_tombstones deleted_example food_def transport_def
      normalize_def lower_Food)

section \<open>Delete, then create with the same key\<close>

lemma filter_single_sortBy:
  assumes "filter P xs = [N]"
  shows "filter P (sortBy cmp xs) = [N]"
proof -
  have "length (filter P (sortBy cmp xs)) = 1"
    using assms by (simp add: filter_sortBy_length)
  moreover have "set (filter P (sortBy cmp xs)) = {N}"
    using assms by (metis set_filter set_sortBy list.set(1) list.simps(15))
  ultimately show ?thesis
    by (metis One_nat_def length_0_conv length_Suc_conv list.set_intros(1) singletonD)
qed

lemma onCategoriesSnapshot_key:
  assumes free: "K \<notin> PENDING_DELETE_NAMES s"
    and snap: "filter (\<lambda>c. normalize (c_name c) = K \<and> c_id c \<notin> PENDING_DELETES s) docs = [N]"
    and new: "toLowerCase (c_name N) = K"
  shows "filter (\<lambda>c. normalize (c_name c) = K) (MOCK_CATEGORIES (onCategoriesSnapshot E docs s)) = [N]"
proof -
  define alive where "alive = (\<lambda>c::Category. c_id c \<notin> PENDING_DELETES s \<and>
     toLowerCase (trim (c_name c)) \<notin> PENDING_DELETE_NAMES s)"
  define cat where "cat = filter alive docs"
  define cloudNames where "cloudNames = set (map (\<lambda>c. toLowerCase (c_name c)) cat)"
  define pend where "pend = filter (\<lambda>c::Category. toLowerCase (trim (c_name c)) \<notin> cloudNames \<and>
     c_id c \<notin> PENDING_DELETES s \<and> toLowerCase (trim (c_name c)) \<notin> PENDING_DELETE_NAMES s)
     (MOCK_CATEGORIES s)"
  have cache: "MOCK_CATEGORIES (onCategoriesSnapshot E docs s) =
      sortBy (\<lambda>a b. localeCompare E (c_name a) (c_name b)) (cat @ pend)"
    by (simp add: onCategoriesSnapshot_def Let_def notify_frame cat_def alive_def pend_def
        cloudNames_def)
  have "filter (\<lambda>c. normalize (c_name c) = K) cat =
        filter (\<lambda>c. normalize (c_name c) = K \<and> c_id c \<notin> PENDING_DELETES s) docs"
    unfolding cat_def alive_def using free
    by (auto simp: normalize_def intro: filter_cong)
  then have fc: "filter (\<lambda>c. normalize (c_name c) = K) cat = [N]" using snap by simp
  then have "N \<in> set (filter (\<lambda>c. normalize (c_name c) = K) cat)" by simp
  then have "N \<in> set cat" by simp
  then have "K \<in> cloudNames" unfolding cloudNames_def using new by force
  then have fp: "filter (\<lambda>c. normalize (c_name c) = K) pend = []"
    unfolding pend_def by (auto simp: normalize_def filter_empty_conv)
  have "filter (\<lambda>c. normalize (c_name c) = K) (cat @ pend) = [N]"
    using fc fp by simp
  then show ?thesis unfolding cache by (rule filter_single_sortBy)
qed

text \<open>
  C2, as the code has it. A category \<open>R\<close> is deleted and a category of the same key is
  then created without error. After any number of snapshots, a snapshot in which the new
  record \<open>N\<close> (with the trimmed name, as the create wrote it) is the only document of that
  key whose id is not pending deletion gives a view with exactly one record of that key,
  \<open>N\<close>; and the view does not hold \<open>R\<close>, unless \<open>R\<close> had a \<open>temp_\<close> id and was deleted
  with the connection set.
\<close>

theorem create_cancels_tombstone:
  assumes target: "find (\<lambda>c. c_id c = ident) (MOCK_CATEGORIES s) = Some R"
    and key: "normalize name = normalize (c_name R)"
    and created: "addSystemCategory name adminEmail' now' outcome'
        (deleteSystemCategory ident adminEmail now outcome s) = (Inr (), s2)"
    and snap: "filter (\<lambda>c. normalize (c_name c) = normalize name \<and>
        c_id c \<notin> PENDING_DELETES s2) docs = [N]"
    and new: "c_name N = trim name"
  shows "filter (\<lambda>c. normalize (c_name c) = normalize (c_name R))
           (MOCK_CATEGORIES (onCategoriesSnapshot E docs (fold (onCategoriesSnapshot E) earlier s2)))
         = [N] \<and>
         (\<not> (db s \<and> startsWith ident ''temp_'') \<longrightarrow>
            R \<notin> set (MOCK_CATEGORIES
              (onCategoriesSnapshot E docs (fold (onCategoriesSnapshot E) earlier s2))))"
proof -
  define s1 where "s1 = deleteSystemCategory ident adminEmail now outcome s"
  define s3 where "s3 = fold (onCategoriesSnapshot E) earlier s2"
  have s2: "s2 = snd (addSystemCategory name adminEmail' now' outcome' s1)"
    using created unfolding s1_def by simp
  have names: "normalize name \<notin> PENDING_DELETE_NAMES s3"
    unfolding s3_def s2 by (simp add: fold_onCategoriesSnapshot_tombstones addSystemCategory_tombstones)
  have ids: "PENDING_DELETES s3 = PENDING_DELETES s1"
    unfolding s3_def s2 by (simp add: fold_onCategoriesSnapshot_tombstones addSystemCategory_tombstones)
  have ids2: "PENDING_DELETES s2 = PENDING_DELETES s1"
    unfolding s2 by (simp add: addSystemCategory_tombstones)
  have "filter (\<lambda>c. normalize (c_name c) = normalize name \<and> c_id c \<notin> PENDING_DELETES s3) docs = [N]"
    using snap ids ids2 by simp
  moreover have "toLowerCase (c_name N) = normalize name"
    using new by (simp add: normalize_def)
  ultimately have one: "filter (\<lambda>c. normalize (c_name c) = normalize name)
      (MOCK_CATEGORIES (onCategoriesSnapshot E docs s3)) = [N]"
    using names by (intro onCategoriesSnapshot_key)
  have rid: "c_id R = ident"
    using target by (auto simp: find_Some_iff)
  have "\<not> (db s \<and> startsWith ident ''temp_'') \<Longrightarrow> c_id R \<in> PENDING_DELETES s3"
    unfolding ids s1_def rid by (simp add: deleteSystemCategory_ids)
  then have old: "\<not> (db s \<and> startsWith ident ''temp_'') \<Longrightarrow>
      R \<notin> set (MOCK_CATEGORIES (onCategoriesSnapshot E docs s3))"
    using onCategoriesSnapshot_alive[of R E docs s3] by blast
  show ?thesis using one old key unfolding s3_def by simp
qed

lemma lower_names:
  "toLowerCase ''Food'' = ''food''"
  "toLowerCase ''Transport'' = ''transport''"
  "trim ''Food'' = ''Food''"
  by code_simp+

lemma deleted_example_cache:
  "MOCK_CATEGORIES (deleteSystemCategory ''c1'' ''admin'' 7 Resolved exampleState) = [transport]"
  "db (deleteSystemCategory ''c1'' ''admin'' 7 Resolved exampleState)"
  by (simp_all add: deleteSystemCategory_def exampleState_def initial_def food_def transport_def
      Let_def notify_frame logSystemAction_frame startsWith_def)

lemma recreated_example:
  "fst (addSystemCategory ''Food'' ''admin'' 8 Resolved
      (deleteSystemCategory ''c1'' ''admin'' 7 Resolved exampleState)) = Inr ()"
  "MOCK_CATEGORIES (snd (addSystemCategory ''Food'' ''admin'' 8 Resolved
      (deleteSystemCategory ''c1'' ''admin'' 7 Resolved exampleState))) = [transport]"
  by (simp_all add: addSystemCategory_def Let_def deleted_example deleted_example_cache
      lower_Food lower_names transport_def logSystemAction_frame)

lemma recreated_example_tombstones:
  "PENDING_DELETES (snd (addSystemCategory ''Food'' ''admin'' 8 Resolved
      (deleteSystemCategory ''c1'' ''admin'' 7 Resolved exampleState))) = {''c1''}"
  "PENDING_DELETE_NAMES (snd (addSystemCategory ''Food'' ''admin'' 8 Resolved
      (deleteSystemCategory ''c1'' ''admin'' 7 Resolved exampleState))) = {}"
  by (simp_all add: addSystemCategory_tombstones deleted_example normalize_def lower_Food)

theorem create_cancels_tombstone_witness:
  "filter (\<lambda>c. normalize (c_name c) = normalize (c_name food))
      (MOCK_CATEGORIES (onCategoriesSnapshot exampleEnv [food, newFood, transport]
        (fold (onCategoriesSnapshot exampleEnv) [[food, transport]]
          (snd (addSystemCategory ''Food'' ''admin'' 8 Resolved
            (deleteSystemCategory ''c1'' ''admin'' 7 Resolved exampleState))))))
    = [newFood] \<and>
   food \<notin> set (MOCK_CATEGORIES (onCategoriesSnapshot exampleEnv [food, newFood, transport]
        (fold (onCategoriesSnapshot exampleEnv) [[food, transport]]
          (snd (addSystemCategory ''Food'' ''admin'' 8 Resolved
            (deleteSystemCategory ''c1'' ''admin'' 7 Resolved exampleState))))))"
proof -
  let ?s1 = "deleteSystemCategory ''c1'' ''admin'' 7 Resolved exampleState"
  let ?s2 = "snd (addSystemCategory ''Food'' ''admin'' 8 Resolved ?s1)"
  have target: "find (\<lambda>c. c_id c = ''c1'') (MOCK_CATEGORIES exampleState) = Some food"
    by (simp add: exampleState_def food_def)
  have key: "normalize ''Food'' = normalize (c_name food)"
    by (simp add: food_def)
  have created: "addSystemCategory ''Food'' ''admin'' 8 Resolved ?s1 = (Inr (), ?s2)"
    using recreated_example(1) by (metis prod.collapse)
  have snap: "filter (\<lambda>c. normalize (c_name c) = normalize ''Food'' \<and>
        c_id c \<notin> PENDING_DELETES ?s2) [food, newFood, transport] = [newFood]"
    by (simp add: recreated_example_tombstones food_def newFood_def transport_def normalize_def
        lower_Food lower_Transport)
  have new: "c_name newFood = trim ''Food''"
    by (simp add: newFood_def lower_names)
  have nt: "\<not> (db exampleState \<and> startsWith ''c1'' ''temp_'')"
    by (simp add: startsWith_def)
  show ?thesis
    using create_cancels_tombstone[OF target key created snap new, of exampleEnv "[[food, transport]]"] nt
    by blast
qed

text \<open>
  C2 as stated fails: with the connection set the create does not touch the cache, and
  a snapshot that still holds the deleted record and not yet the new one gives the view
  \<open>[transport]\<close>, with no record of the key of \<open>food\<close>.
\<close>

theorem create_cancels_tombstone_counterexample:
  "fst (addSystemCategory ''Food'' ''admin'' 8 Resolved
      (deleteSystemCategory ''c1'' ''admin'' 7 Resolved exampleState)) = Inr () \<and>
   MOCK_CATEGORIES (onCategoriesSnapshot exampleEnv [food, transport]
      (snd (addSystemCategory ''Food'' ''admin'' 8 Resolved
        (deleteSystemCategory ''c1'' ''admin'' 7 Resolved exampleState)))) = [transport] \<and>
   normalize (c_name transport) \<noteq> normalize (c_name food)"
proof -
  let ?s2 = "snd (addSystemCategory ''Food'' ''admin'' 8 Resolved
            (deleteSystemCategory ''c1'' ''admin'' 7 Resolved exampleState))"
  have "MOCK_CATEGORIES (onCategoriesSnapshot exampleEnv [food, transport] ?s2) = [transport]"
    by (simp add: onCategoriesSnapshot_def Let_def notify_frame recreated_example
        recreated_example_tombstones food_def transport_def lower_names lower_Transport
        sortBy_def del: set_filter)
  then show ?thesis
    by (simp add: recreated_example(1) normalize_def food_def transport_def lower_Food lower_Transport)
qed

section \<open>Applying a snapshot twice\<close>

lemma onCutoffsSnapshot_cache:
  "MOCK_CUTOFFS (onCutoffsSnapshot E userId coll s) =
     filter (\<lambda>c. co_userId c \<noteq> userId) (MOCK_CUTOFFS s) @
     sortBy (\<lambda>a b. localeCompare E (co_startDate b) (co_startDate a))
       (map (\<lambda>d. d\<lparr>co_decryptedIncome := Some (parseFloat E (decryptData (co_encryptedTotalIncome d))),
                    co_decryptedSavings := Some (parseFloat E (decryptData (co_encryptedTotalSavings d)))\<rparr>)
          (filter (\<lambda>d. co_userId d = userId) coll)) @
     filter (\<lambda>c. co_userId c = userId \<and> co_id c \<notin> co_id `
         set (filter (\<lambda>d. co_userId d = userId) coll)) (MOCK_CUTOFFS s)"
  by (simp add: onCutoffsSnapshot_def Let_def notify_frame set_sortBy image_image del: set_filter)

lemma merge_twice:
  assumes own: "\<forall>c\<in>set cloud. P c" and ids: "f ` set cloud = I"
  shows "filter (\<lambda>c. \<not> P c) (filter (\<lambda>c. \<not> P c) cache @ cloud @ filter (\<lambda>c. P c \<and> f c \<notin> I) cache)
         @ cloud @
         filter (\<lambda>c. P c \<and> f c \<notin> I) (filter (\<lambda>c. \<not> P c) cache @ cloud @ filter (\<lambda>c. P c \<and> f c \<notin> I) cache)
       = filter (\<lambda>c. \<not> P c) cache @ cloud @ filter (\<lambda>c. P c \<and> f c \<notin> I) cache"
proof -
  have a: "filter (\<lambda>c. \<not> P c) cloud = []" using own by (simp add: filter_empty_conv)
  have b: "filter (\<lambda>c. P c \<and> f c \<notin> I) cloud = []" using ids by (auto simp: filter_empty_conv)
  have c: "filter (\<lambda>c. \<not> P c) (filter (\<lambda>c. P c \<and> f c \<notin> I) cache) = []"
    by (simp add: filter_empty_conv)
  have d: "filter (\<lambda>c. P c \<and> f c \<notin> I) (filter (\<lambda>c. \<not> P c) cache) = []"
    by (simp add: filter_empty_conv)
  have e: "filter (\<lambda>c. \<not> P c) (filter (\<lambda>c. \<not> P c) cache) = filter (\<lambda>c. \<not> P c) cache"
    by simp
  have f: "filter (\<lambda>c. P c \<and> f c \<notin> I) (filter (\<lambda>c. P c \<and> f c \<notin> I) cache)
      = filter (\<lambda>c. P c \<and> f c \<notin> I) cache"
    by simp
  show ?thesis by (simp only: filter_append a b c d e f append_Nil append_Nil2)
qed

lemma onCutoffsSnapshot_twice:
  "MOCK_CUTOFFS (onCutoffsSnapshot E userId coll (onCutoffsSnapshot E userId coll s)) =
   MOCK_CUTOFFS (onCutoffsSnapshot E userId coll s)"
proof -
  define cloud where "cloud = sortBy (\<lambda>a b. localeCompare E (co_startDate b) (co_startDate a))
       (map (\<lambda>d. d\<lparr>co_decryptedIncome := Some (parseFloat E (decryptData (co_encryptedTotalIncome d))),
                    co_decryptedSavings := Some (parseFloat E (decryptData (co_encryptedTotalSavings d)))\<rparr>)
          (filter (\<lambda>d. co_userId d = userId) coll))"
  define I where "I = co_id ` set (filter (\<lambda>d. co_userId d = userId) coll)"
  have own: "\<forall>c\<in>set cloud. co_userId c = userId"
    unfolding cloud_def by (auto simp: set_sortBy)
  have ids: "co_id ` set cloud = I"
    unfolding cloud_def I_def by (simp add: set_sortBy image_image del: set_filter)
  have c1: "\<And>t. MOCK_CUTOFFS (onCutoffsSnapshot E userId coll t) =
     filter (\<lambda>c. \<not> co_userId c = userId) (MOCK_CUTOFFS t) @ cloud @
     filter (\<lambda>c. co_userId c = userId \<and> co_id c \<notin> I) (MOCK_CUTOFFS t)"
    unfolding cloud_def I_def by (rule onCutoffsSnapshot_cache)
  show ?thesis
    unfolding c1[of "onCutoffsSnapshot E userId coll s"] unfolding c1[of s]
    by (rule merge_twice[OF own ids])
qed

lemma onExpensesSnapshot_cache:
  "MOCK_EXPENSES (onExpensesSnapshot E userId coll s) =
     filter (\<lambda>c. e_userId c \<noteq> userId) (MOCK_EXPENSES s) @
     sortBy (\<lambda>a b. localeCompare E (e_date b) (e_date a))
       (map (\<lambda>d. d\<lparr>e_decryptedAmount := Some (parseFloat E (decryptData (e_encryptedAmount d)))\<rparr>)
          (filter (\<lambda>d. e_userId d = userId) coll)) @
     filter (\<lambda>c. e_userId c = userId \<and> e_id c \<notin> e_id `
         set (filter (\<lambda>d. e_userId d = userId) coll)) (MOCK_EXPENSES s)"
  by (simp add: onExpensesSnapshot_def Let_def notify_frame set_sortBy image_image del: set_filter)

lemma onExpensesSnapshot_twice:
  "MOCK_EXPENSES (onExpensesSnapshot E userId coll (onExpensesSnapshot E userId coll s)) =
   MOCK_EXPENSES (onExpensesSnapshot E userId coll s)"
proof -
  define cloud where "cloud = sortBy (\<lambda>a b. localeCompare E (e_date b) (e_date a))
       (map (\<lambda>d. d\<lparr>e_decryptedAmount := Some (parseFloat E (decryptData (e_encryptedAmount d)))\<rparr>)
          (filter (\<lambda>d. e_userId d = userId) coll))"
  define I where "I = e_id ` set (filter (\<lambda>d. e_userId d = userId) coll)"
  have own: "\<forall>c\<in>set cloud. e_userId c = userId"
    unfolding cloud_def by (auto simp: set_sortBy)
  have ids: "e_id ` set cloud = I"
    unfolding cloud_def I_def by (simp add: set_sortBy image_image del: set_filter)
  have c1: "\<And>t. MOCK_EXPENSES (onExpensesSnapshot E userId coll t) =
     filter (\<lambda>c. \<not> e_userId c = userId) (MOCK_EXPENSES t) @ cloud @
     filter (\<lambda>c. e_userId c = userId \<and> e_id c \<notin> I) (MOCK_EXPENSES t)"
    unfolding cloud_def I_def by (rule onExpensesSnapshot_cache)
  show ?thesis
    unfolding c1[of "onExpensesSnapshot E userId coll s"] unfolding c1[of s]
    by (rule merge_twice[OF own ids])
qed

text \<open>
  The categories snapshot applied twice gives the same cache when the stored names have
  no white space around them and the comparison is a total preorder.
\<close>

lemma insertBy_sorted:
  assumes total: "\<And>a b. cmp a b \<le> 0 \<or> cmp b a \<le> 0"
    and trans: "\<And>a b c. cmp a b \<le> 0 \<Longrightarrow> cmp b c \<le> 0 \<Longrightarrow> cmp a c \<le> 0"
    and "sorted_wrt (\<lambda>a b. cmp a b \<le> 0) ys"
  shows "sorted_wrt (\<lambda>a b. cmp a b \<le> 0) (insertBy cmp x ys)"
  using assms(3)
proof (induction ys)
  case Nil
  then show ?case by simp
next
  case (Cons y ys)
  show ?case
  proof (cases "cmp x y \<le> 0")
    case True
    then have "\<forall>z\<in>set ys. cmp x z \<le> 0" using Cons.prems trans by auto
    then show ?thesis using True Cons.prems by simp
  next
    case False
    then have yx: "cmp y x \<le> 0" using total[of x y] by simp
    have "set (insertBy cmp x ys) = insert x (set ys)"
      using mset_insertBy[of cmp x ys] by (metis set_mset_add_mset_insert set_mset_mset)
    then show ?thesis using False yx Cons by auto
  qed
qed

lemma sortBy_sorted:
  assumes "\<And>a b. cmp a b \<le> 0 \<or> cmp b a \<le> 0"
    and "\<And>a b c. cmp a b \<le> 0 \<Longrightarrow> cmp b c \<le> 0 \<Longrightarrow> cmp a c \<le> 0"
  shows "sorted_wrt (\<lambda>a b. cmp a b \<le> 0) (sortBy cmp xs)"
  unfolding sortBy_def
  by (induction xs) (simp_all add: insertBy_sorted[OF assms])

lemma filter_insertBy:
  assumes trans: "\<And>a b c. cmp a b \<le> 0 \<Longrightarrow> cmp b c \<le> 0 \<Longrightarrow> cmp a c \<le> 0"
    and "sorted_wrt (\<lambda>a b. cmp a b \<le> 0) ys"
  shows "filter P (insertBy cmp x ys) =
         (if P x then insertBy cmp x (filter P ys) else filter P ys)"
  using assms(2)
proof (induction ys)
  case Nil
  then show ?case by simp
next
  case (Cons y ys)
  show ?case
  proof (cases "cmp x y \<le> 0")
    case True
    then have all: "\<forall>z\<in>set ys. cmp x z \<le> 0" using Cons.prems trans by auto
    have "P x \<Longrightarrow> insertBy cmp x (filter P ys) = x # filter P ys"
    proof (cases "filter P ys")
      case Nil
      then show ?thesis by simp
    next
      case (Cons a list)
      then have "a \<in> set (filter P ys)" by simp
      then have "cmp x a \<le> 0" using all by simp
      then show ?thesis using Cons by simp
    qed
    then show ?thesis using True by simp
  next
    case False
    then show ?thesis using Cons by simp
  qed
qed

lemma filter_sortBy:
  assumes "\<And>a b. cmp a b \<le> 0 \<or> cmp b a \<le> 0"
    and "\<And>a b c. cmp a b \<le> 0 \<Longrightarrow> cmp b c \<le> 0 \<Longrightarrow> cmp a c \<le> 0"
  shows "filter P (sortBy cmp xs) = sortBy cmp (filter P xs)"
proof (induction xs)
  case Nil
  then show ?case by (simp add: sortBy_def)
next
  case (Cons x xs)
  have s: "sorted_wrt (\<lambda>a b. cmp a b \<le> 0) (sortBy cmp xs)"
    by (rule sortBy_sorted[OF assms])
  have "filter P (sortBy cmp (x # xs)) = filter P (insertBy cmp x (sortBy cmp xs))"
    by (simp add: sortBy_def)
  also have "\<dots> = (if P x then insertBy cmp x (filter P (sortBy cmp xs))
                     else filter P (sortBy cmp xs))"
    by (rule filter_insertBy[OF assms(2) s])
  finally show ?case using Cons by (simp add: sortBy_def)
qed

lemma sortBy_sorted_id:
  assumes "sorted_wrt (\<lambda>a b. cmp a b \<le> 0) ys"
  shows "sortBy cmp ys = ys"
  using assms
proof (induction ys)
  case Nil
  then show ?case by (simp add: sortBy_def)
next
  case (Cons y ys)
  then have "sortBy cmp ys = ys" by simp
  then have "sortBy cmp (y # ys) = insertBy cmp y ys" by (simp add: sortBy_def)
  also have "\<dots> = y # ys" using Cons.prems by (cases ys) simp_all
  finally show ?case .
qed

lemma sortBy_append_sorted:
  assumes "\<And>a b. cmp a b \<le> 0 \<or> cmp b a \<le> 0"
    and "\<And>a b c. cmp a b \<le> 0 \<Longrightarrow> cmp b c \<le> 0 \<Longrightarrow> cmp a c \<le> 0"
  shows "sortBy cmp (xs @ sortBy cmp ys) = sortBy cmp (xs @ ys)"
proof -
  have "sortBy cmp (sortBy cmp ys) = sortBy cmp ys"
    by (rule sortBy_sorted_id) (rule sortBy_sorted[OF assms])
  then show ?thesis by (simp add: sortBy_def)
qed

lemma onCategoriesSnapshot_twice_trimmed:
  assumes total: "\<And>a b. localeCompare E a b \<le> 0 \<or> localeCompare E b a \<le> 0"
    and trans: "\<And>a b c. localeCompare E a b \<le> 0 \<Longrightarrow> localeCompare E b c \<le> 0
        \<Longrightarrow> localeCompare E a c \<le> 0"
    and trimmed: "\<forall>c \<in> set docs. toLowerCase (trim (c_name c)) = toLowerCase (c_name c)"
  shows "MOCK_CATEGORIES (onCategoriesSnapshot E docs (onCategoriesSnapshot E docs s)) =
         MOCK_CATEGORIES (onCategoriesSnapshot E docs s)"
proof -
  define cmp where "cmp = (\<lambda>(a::Category) (b::Category). localeCompare E (c_name a) (c_name b))"
  define cat where "cat = filter (\<lambda>c. c_id c \<notin> PENDING_DELETES s \<and>
     toLowerCase (trim (c_name c)) \<notin> PENDING_DELETE_NAMES s) docs"
  define P where "P = (\<lambda>c::Category.
     toLowerCase (trim (c_name c)) \<notin> set (map (\<lambda>c. toLowerCase (c_name c)) cat) \<and>
     c_id c \<notin> PENDING_DELETES s \<and> toLowerCase (trim (c_name c)) \<notin> PENDING_DELETE_NAMES s)"
  have tot: "\<And>a b. cmp a b \<le> 0 \<or> cmp b a \<le> 0" unfolding cmp_def by (rule total)
  have tr: "\<And>a b c. cmp a b \<le> 0 \<Longrightarrow> cmp b c \<le> 0 \<Longrightarrow> cmp a c \<le> 0"
    unfolding cmp_def by (rule trans)
  have cache: "MOCK_CATEGORIES (onCategoriesSnapshot E docs t) =
      sortBy cmp (cat @ filter P (MOCK_CATEGORIES t))"
    if "PENDING_DELETES t = PENDING_DELETES s"
      and "PENDING_DELETE_NAMES t = PENDING_DELETE_NAMES s" for t
    using that
    by (simp add: onCategoriesSnapshot_def Let_def notify_frame cat_def P_def cmp_def)
  have c1: "MOCK_CATEGORIES (onCategoriesSnapshot E docs s) =
      sortBy cmp (cat @ filter P (MOCK_CATEGORIES s))"
    by (rule cache) simp_all
  have c2: "MOCK_CATEGORIES (onCategoriesSnapshot E docs (onCategoriesSnapshot E docs s)) =
      sortBy cmp (cat @ filter P (MOCK_CATEGORIES (onCategoriesSnapshot E docs s)))"
    by (rule cache) (simp_all add: onCategoriesSnapshot_tombstones)
  have "\<forall>c \<in> set cat. \<not> P c"
    unfolding P_def cat_def using trimmed by auto
  then have fcat: "filter P cat = []" by (simp add: filter_empty_conv)
  have "filter P (sortBy cmp (cat @ filter P (MOCK_CATEGORIES s))) =
        sortBy cmp (filter P (cat @ filter P (MOCK_CATEGORIES s)))"
    by (rule filter_sortBy[OF tot tr])
  also have "\<dots> = sortBy cmp (filter P (MOCK_CATEGORIES s))"
    using fcat by simp
  finally have "filter P (MOCK_CATEGORIES (onCategoriesSnapshot E docs s)) =
      sortBy cmp (filter P (MOCK_CATEGORIES s))"
    unfolding c1 .
  then show ?thesis
    unfolding c2 c1 by (simp add: sortBy_append_sorted[OF tot tr])
qed

lemma lower_spaced:
  "toLowerCase '' Food'' = '' food''"
  "toLowerCase (trim '' Food'') = ''food''"
  by code_simp+

text \<open>
  C3 at a category whose stored name starts with a space: the set of cloud names is built
  without \<open>trim\<close>, the test of the cached records with it, so the record that the first
  application took from the snapshot counts as pending in the second one and is there twice.
\<close>

theorem categories_snapshot_twice_duplicates:
  "MOCK_CATEGORIES (onCategoriesSnapshot exampleEnv [spacedFood] (initial True)) = [spacedFood] \<and>
   MOCK_CATEGORIES (onCategoriesSnapshot exampleEnv [spacedFood]
      (onCategoriesSnapshot exampleEnv [spacedFood] (initial True))) = [spacedFood, spacedFood]"
proof -
  have step: "MOCK_CATEGORIES (onCategoriesSnapshot exampleEnv [spacedFood] t) =
      sortBy (\<lambda>a b. compareStrings (c_name a) (c_name b))
        (spacedFood # filter (\<lambda>c. toLowerCase (trim (c_name c)) \<noteq> '' food'') (MOCK_CATEGORIES t))"
    if "PENDING_DELETES t = {}" and "PENDING_DELETE_NAMES t = {}" for t :: "string state"
    using that
    by (simp add: onCategoriesSnapshot_def Let_def notify_frame exampleEnv_def spacedFood_def
        lower_spaced)
  have empty: "PENDING_DELETES (initial True :: string state) = {}"
    "PENDING_DELETE_NAMES (initial True :: string state) = {}"
    "MOCK_CATEGORIES (initial True :: string state) = []"
    by (simp_all add: initial_def)
  have one: "MOCK_CATEGORIES (onCategoriesSnapshot exampleEnv [spacedFood] (initial True))
      = [spacedFood]"
    by (simp add: step empty sortBy_def)
  have "MOCK_CATEGORIES (onCategoriesSnapshot exampleEnv [spacedFood]
      (onCategoriesSnapshot exampleEnv [spacedFood] (initial True))) =
      sortBy (\<lambda>a b. compareStrings (c_name a) (c_name b))
        (spacedFood # filter (\<lambda>c. toLowerCase (trim (c_name c)) \<noteq> '' food'') [spacedFood])"
    by (simp add: step onCategoriesSnapshot_tombstones empty one)
  also have "\<dots> = [spacedFood, spacedFood]"
    by (simp add: sortBy_def spacedFood_def lower_spaced)
  finally show ?thesis using one by simp
qed

section \<open>Deliveries through an owner-scoped subscription\<close>

lemma ownedBy_filterByUser: "ownedBy userId (filterByUser userId v)"
  by (cases v) (simp_all add: ownedBy_def)

lemma isolated_updates [simp]:
  "isolated (s\<lparr>db := x0\<rparr>) = isolated s"
  "isolated (s\<lparr>MOCK_CATEGORIES := x1\<rparr>) = isolated s"
  "isolated (s\<lparr>MOCK_CUTOFFS := x2\<rparr>) = isolated s"
  "isolated (s\<lparr>MOCK_EXPENSES := x3\<rparr>) = isolated s"
  "isolated (s\<lparr>MOCK_LOGS := x4\<rparr>) = isolated s"
  "isolated (s\<lparr>MOCK_USERS := x5\<rparr>) = isolated s"
  "isolated (s\<lparr>MOCK_APPEALS := x6\<rparr>) = isolated s"
  "isolated (s\<lparr>MOCK_TEMPLATES := x7\<rparr>) = isolated s"
  "isolated (s\<lparr>PENDING_DELETES := x8\<rparr>) = isolated s"
  "isolated (s\<lparr>PENDING_DELETE_NAMES := x9\<rparr>) = isolated s"
  "isolated (s\<lparr>listeners := y0\<rparr>) = isolated s"
  "isolated (s\<lparr>remote := y1\<rparr>) = isolated s"
  by (simp_all add: isolated_def)

lemma isolated_call: "isolated s \<Longrightarrow> isolated (call l v s)"
  by (cases l) (auto simp: isolated_def ownedBy_filterByUser)

lemma isolated_fold_call: "isolated s \<Longrightarrow> isolated (fold (\<lambda>cb. call cb v) ls s)"
  by (induction ls arbitrary: s) (simp_all add: isolated_call)

lemma isolated_notify: "isolated s \<Longrightarrow> isolated (notifyListeners key v s)"
  by (simp add: notifyListeners_def isolated_fold_call)

lemma isolated_pushListener: "isolated (pushListener key l s) = isolated s"
  by (simp add: pushListener_def)

lemma isolated_log: "isolated s \<Longrightarrow> isolated (logSystemAction a b c d n s)"
  by (simp add: logSystemAction_def Let_def isolated_notify)

lemma isolated_initial: "isolated (initial connected)"
  by (simp add: isolated_def initial_def)

lemma isolated_step: "isolated s \<Longrightarrow> isolated (step E ev s)"
proof (cases ev)
  case (AddSystemCategory name adminEmail now outcome)
  assume "isolated s"
  then show ?thesis unfolding AddSystemCategory
    by (auto simp: addSystemCategory_def Let_def isolated_notify isolated_log
        split: write_outcome.splits)
next
  case (DeleteSystemCategory ident adminEmail now outcome)
  assume "isolated s"
  then show ?thesis unfolding DeleteSystemCategory
    by (auto simp: deleteSystemCategory_def Let_def isolated_notify isolated_log
        split: write_outcome.splits option.splits)
next
  case (SaveCutOff cutoff userEmail now outcome)
  assume "isolated s"
  then show ?thesis unfolding SaveCutOff
    by (auto simp: saveCutOff_def Let_def isolated_notify isolated_log split: write_outcome.splits)
next
  case (SaveExpense expense userEmail now outcome)
  assume "isolated s"
  then show ?thesis unfolding SaveExpense
    by (auto simp: saveExpense_def Let_def isolated_notify isolated_log split: write_outcome.splits)
qed (simp_all add: isolated_log isolated_notify isolated_call isolated_pushListener Let_def
      subscribeToAuditLogs_def subscribeToCategories_def onCategoriesSnapshot_def
      subscribeToUsers_def subscribeToAppeals_def subscribeToTemplates_def onTemplatesSnapshot_def
      subscribeToCutoffs_def onCutoffsSnapshot_def subscribeToExpenses_def onExpensesSnapshot_def
      subscribeToAllExpenses_def onAllExpensesSnapshot_def subscribeToAllCutoffs_def
      onAllCutoffsSnapshot_def del: call.simps)

lemma isolated_run: "isolated s \<Longrightarrow> isolated (run E evs s)"
  unfolding run_def by (induction evs arbitrary: s) (simp_all add: isolated_step)

text \<open>
  C4. Ownership isolation: in every run from the initial state, whatever the events
  (subscriptions, snapshots of any owner, writes, the administrator's snapshots of all
  owners), a view that reaches a callback through the owner-scoped subscription of owner
  \<open>A\<close> holds only cut-offs, expenses and templates whose \<open>userId\<close> is \<open>A\<close>.
\<close>

theorem ownership_isolation:
  assumes "(UserCallback A cb, v) \<in> set (delivered (run E evs (initial connected)))"
  shows "(\<forall>c \<in> set (cutoffsOf v). co_userId c = A) \<and>
         (\<forall>e \<in> set (expensesOf v). e_userId e = A) \<and>
         (\<forall>t \<in> set (templatesOf v). t_userId t = A)"
proof -
  have "isolated (run E evs (initial connected))"
    by (rule isolated_run) (rule isolated_initial)
  then have "ownedBy A v" using assms unfolding isolated_def by blast
  then show ?thesis by (simp add: ownedBy_def)
qed

lemma decrypt_examples:
  "decryptData ''100'' = ''0''"
  "decryptData ''ENC_!'' = ''0''"
  by code_simp+

lemma isolation_example:
  "delivered (run exampleEnv
      [SubscribeToCutoffs ''A'' 1,
       CutoffsSnapshot ''B'' [cutoffOf ''k2'' ''B''],
       CutoffsSnapshot ''A'' [cutoffOf ''k1'' ''A'', cutoffOf ''k2'' ''B'']] (initial True)) =
   [(UserCallback ''A'' 1, CutOffs []),
    (UserCallback ''A'' 1, CutOffs []),
    (UserCallback ''A'' 1, CutOffs [(cutoffOf ''k1'' ''A'')\<lparr>co_decryptedIncome := Some ''0'',
        co_decryptedSavings := Some ''0''\<rparr>])]"
  by (simp add: run_def subscribeToCutoffs_def pushListener_def onCutoffsSnapshot_def
      notifyListeners_def initial_def Let_def cutoffOf_def exampleEnv_def sortBy_def
      decrypt_examples)

theorem ownership_isolation_witness:
  "(UserCallback ''A'' 1, CutOffs [(cutoffOf ''k1'' ''A'')\<lparr>co_decryptedIncome := Some ''0'',
        co_decryptedSavings := Some ''0''\<rparr>])
     \<in> set (delivered (run exampleEnv
      [SubscribeToCutoffs ''A'' 1,
       CutoffsSnapshot ''B'' [cutoffOf ''k2'' ''B''],
       CutoffsSnapshot ''A'' [cutoffOf ''k1'' ''A'', cutoffOf ''k2'' ''B'']] (initial True))) \<and>
   map co_userId (cutoffsOf (CutOffs [(cutoffOf ''k1'' ''A'')\<lparr>co_decryptedIncome := Some ''0'',
        co_decryptedSavings := Some ''0''\<rparr>])) = [''A'']"
proof -
  have h: "(UserCallback ''A'' 1, CutOffs [(cutoffOf ''k1'' ''A'')\<lparr>co_decryptedIncome := Some ''0'',
        co_decryptedSavings := Some ''0''\<rparr>])
     \<in> set (delivered (run exampleEnv
      [SubscribeToCutoffs ''A'' 1,
       CutoffsSnapshot ''B'' [cutoffOf ''k2'' ''B''],
       CutoffsSnapshot ''A'' [cutoffOf ''k1'' ''A'', cutoffOf ''k2'' ''B'']] (initial True)))"
    unfolding isolation_example by simp
  show ?thesis using h ownership_isolation[OF h] by simp
qed

section \<open>Subscribing\<close>

lemma pushListener_frame:
  "delivered (pushListener key l s) = delivered s"
  "MOCK_CATEGORIES (pushListener key l s) = MOCK_CATEGORIES s"
  "MOCK_CUTOFFS (pushListener key l s) = MOCK_CUTOFFS s"
  "MOCK_EXPENSES (pushListener key l s) = MOCK_EXPENSES s"
  "MOCK_LOGS (pushListener key l s) = MOCK_LOGS s"
  "MOCK_USERS (pushListener key l s) = MOCK_USERS s"
  "MOCK_APPEALS (pushListener key l s) = MOCK_APPEALS s"
  "MOCK_TEMPLATES (pushListener key l s) = MOCK_TEMPLATES s"
  "listeners (pushListener key l s) = (listeners s)(key := listeners s key @ [l])"
  by (simp_all add: pushListener_def)

lemma subscribe_delivered:
  "newDeliveries s (call l v (pushListener key l s)) = [(l, viewFor l v)]"
  by (simp add: newDeliveries_def call_delivered pushListener_frame)

lemma subscribe_registered:
  "l \<in> set (listeners (call l v (pushListener key l s)) key)"
  by (simp add: call_frame pushListener_frame)

lemma listeners_step: "l \<in> set (listeners s key) \<Longrightarrow> l \<in> set (listeners (step E ev s) key)"
proof (cases ev)
  case (AddSystemCategory name adminEmail now outcome)
  assume "l \<in> set (listeners s key)"
  then show ?thesis unfolding AddSystemCategory
    by (auto simp: addSystemCategory_def Let_def notify_frame logSystemAction_frame
        split: write_outcome.splits)
next
  case (DeleteSystemCategory ident adminEmail now outcome)
  assume "l \<in> set (listeners s key)"
  then show ?thesis unfolding DeleteSystemCategory
    by (auto simp: deleteSystemCategory_def Let_def notify_frame logSystemAction_frame
        split: write_outcome.splits option.splits)
next
  case (SaveCutOff cutoff userEmail now outcome)
  assume "l \<in> set (listeners s key)"
  then show ?thesis unfolding SaveCutOff
    by (auto simp: saveCutOff_def Let_def notify_frame logSystemAction_frame
        split: write_outcome.splits)
next
  case (SaveExpense expense userEmail now outcome)
  assume "l \<in> set (listeners s key)"
  then show ?thesis unfolding SaveExpense
    by (auto simp: saveExpense_def Let_def notify_frame logSystemAction_frame
        split: write_outcome.splits)
qed (auto simp add: logSystemAction_frame notify_frame call_frame pushListener_frame Let_def
      subscribeToAuditLogs_def subscribeToCategories_def onCategoriesSnapshot_def
      subscribeToUsers_def subscribeToAppeals_def subscribeToTemplates_def onTemplatesSnapshot_def
      subscribeToCutoffs_def onCutoffsSnapshot_def subscribeToExpenses_def onExpensesSnapshot_def
      subscribeToAllExpenses_def onAllExpensesSnapshot_def subscribeToAllCutoffs_def
      onAllCutoffsSnapshot_def del: call.simps)

lemma listeners_run: "l \<in> set (listeners s key) \<Longrightarrow> l \<in> set (listeners (run E evs s) key)"
  unfolding run_def by (induction evs arbitrary: s) (simp_all add: listeners_step)

lemma publish_reaches:
  "l \<in> set (listeners s key) \<Longrightarrow> (l, viewFor l v) \<in> set (newDeliveries s (notifyListeners key v s))"
  by (simp add: newDeliveries_def notify_delivered)

lemma later_publish_reaches:
  "(l, viewFor l v) \<in> set (newDeliveries (run E evs (call l w (pushListener key l s)))
      (notifyListeners key v (run E evs (call l w (pushListener key l s)))))"
  by (intro publish_reaches listeners_run subscribe_registered)

text \<open>
  C5. Late-subscriber replay, for each of the nine channels: the call of the subscribe
  function makes exactly one delivery, to the new function, with the current cache (the
  owner's records of it for an owner-scoped subscription); and after any events that
  follow, a publish on the channel reaches the function.
\<close>

theorem late_subscriber_replay:
  "newDeliveries s (subscribeToAuditLogs cb s) = [(Callback cb, Logs (MOCK_LOGS s))] \<and>
   newDeliveries s (subscribeToCategories cb s) = [(Callback cb, Categories (MOCK_CATEGORIES s))] \<and>
   newDeliveries s (subscribeToUsers cb s) = [(Callback cb, Users (MOCK_USERS s))] \<and>
   newDeliveries s (subscribeToAppeals cb s) = [(Callback cb, Appeals (MOCK_APPEALS s))] \<and>
   newDeliveries s (subscribeToTemplates userId cb s) =
     [(UserCallback userId cb, Templates (filter (\<lambda>t. t_userId t = userId) (MOCK_TEMPLATES s)))] \<and>
   newDeliveries s (subscribeToCutoffs userId cb s) =
     [(UserCallback userId cb, CutOffs (filter (\<lambda>c. co_userId c = userId) (MOCK_CUTOFFS s)))] \<and>
   newDeliveries s (subscribeToExpenses userId cb s) =
     [(UserCallback userId cb, Expenses (filter (\<lambda>e. e_userId e = userId) (MOCK_EXPENSES s)))] \<and>
   newDeliveries s (subscribeToAllExpenses cb s) = [(Callback cb, Expenses (MOCK_EXPENSES s))] \<and>
   newDeliveries s (subscribeToAllCutoffs cb s) = [(Callback cb, CutOffs (MOCK_CUTOFFS s))] \<and>
   (Callback cb, v) \<in> set (newDeliveries (run E evs (subscribeToAuditLogs cb s))
      (notifyListeners key_logs v (run E evs (subscribeToAuditLogs cb s)))) \<and>
   (Callback cb, v) \<in> set (newDeliveries (run E evs (subscribeToCategories cb s))
      (notifyListeners key_categories v (run E evs (subscribeToCategories cb s)))) \<and>
   (Callback cb, v) \<in> set (newDeliveries (run E evs (subscribeToUsers cb s))
      (notifyListeners key_admin_users v (run E evs (subscribeToUsers cb s)))) \<and>
   (Callback cb, v) \<in> set (newDeliveries (run E evs (subscribeToAppeals cb s))
      (notifyListeners key_admin_appeals v (run E evs (subscribeToAppeals cb s)))) \<and>
   (UserCallback userId cb, filterByUser userId v)
      \<in> set (newDeliveries (run E evs (subscribeToTemplates userId cb s))
      (notifyListeners key_recurring v (run E evs (subscribeToTemplates userId cb s)))) \<and>
   (UserCallback userId cb, filterByUser userId v)
      \<in> set (newDeliveries (run E evs (subscribeToCutoffs userId cb s))
      (notifyListeners key_cutoffs v (run E evs (subscribeToCutoffs userId cb s)))) \<and>
   (UserCallback userId cb, filterByUser userId v)
      \<in> set (newDeliveries (run E evs (subscribeToExpenses userId cb s))
      (notifyListeners key_expenses v (run E evs (subscribeToExpenses userId cb s)))) \<and>
   (Callback cb, v) \<in> set (newDeliveries (run E evs (subscribeToAllExpenses cb s))
      (notifyListeners key_admin_all_expenses v (run E evs (subscribeToAllExpenses cb s)))) \<and>
   (Callback cb, v) \<in> set (newDeliveries (run E evs (subscribeToAllCutoffs cb s))
      (notifyListeners key_admin_all_cutoffs v (run E evs (subscribeToAllCutoffs cb s))))"
proof -
  have now: "\<And>l w key. newDeliveries s (call l w (pushListener key l s)) = [(l, viewFor l w)]"
    by (rule subscribe_delivered)
  have plain: "\<And>w key. (Callback cb, v)
      \<in> set (newDeliveries (run E evs (call (Callback cb) w (pushListener key (Callback cb) s)))
           (notifyListeners key v (run E evs (call (Callback cb) w (pushListener key (Callback cb) s)))))"
    using later_publish_reaches[of "Callback cb" v] by simp
  have scoped: "\<And>w key. (UserCallback userId cb, filterByUser userId v)
      \<in> set (newDeliveries (run E evs (call (UserCallback userId cb) w
              (pushListener key (UserCallback userId cb) s)))
           (notifyListeners key v (run E evs (call (UserCallback userId cb) w
              (pushListener key (UserCallback userId cb) s)))))"
    using later_publish_reaches[of "UserCallback userId cb" v] by simp
  show ?thesis
    unfolding subscribeToAuditLogs_def subscribeToCategories_def subscribeToUsers_def
      subscribeToAppeals_def subscribeToTemplates_def subscribeToCutoffs_def
      subscribeToExpenses_def subscribeToAllExpenses_def subscribeToAllCutoffs_def Let_def
    by (simp add: now plain scoped pushListener_frame del: call.simps)
qed

section \<open>Writes\<close>

lemma saveExpense_offline:
  assumes "\<not> db s"
  shows "MOCK_EXPENSES (saveExpense expense userEmail now outcome s) =
           expense\<lparr>e_id := natToString now\<rparr> # MOCK_EXPENSES s"
    and "remote (saveExpense expense userEmail now outcome s) = remote s"
    and "newDeliveries s (saveExpense expense userEmail now outcome s) =
           map (\<lambda>l. (l, viewFor l (Expenses (expense\<lparr>e_id := natToString now\<rparr> # MOCK_EXPENSES s))))
             (listeners s key_expenses) @
           map (\<lambda>l. (l, viewFor l (Logs (MOCK_LOGS (saveExpense expense userEmail now outcome s)))))
             (listeners s key_logs)"
  using assms
  by (simp_all add: saveExpense_def Let_def logSystemAction_def notify_frame notify_delivered
      newDeliveries_def)

lemma saveExpense_connected:
  assumes "db s"
  shows "MOCK_EXPENSES (saveExpense expense userEmail now outcome s) = MOCK_EXPENSES s"
    and "take (Suc (length (remote s))) (remote (saveExpense expense userEmail now outcome s)) =
           remote s @ [AddDoc ''expenses'' (ExpensePayload (expense\<lparr>e_decryptedAmount := None\<rparr>)) now]"
  using assms
  by (simp_all add: saveExpense_def Let_def logSystemAction_def notify_frame
      split: write_outcome.splits)

lemma saveCutOff_offline:
  assumes "\<not> db s"
  shows "MOCK_CUTOFFS (saveCutOff cutoff userEmail now outcome s) =
           cutoff\<lparr>co_id := natToString now\<rparr> # MOCK_CUTOFFS s"
    and "remote (saveCutOff cutoff userEmail now outcome s) = remote s"
    and "newDeliveries s (saveCutOff cutoff userEmail now outcome s) =
           map (\<lambda>l. (l, viewFor l (CutOffs (cutoff\<lparr>co_id := natToString now\<rparr> # MOCK_CUTOFFS s))))
             (listeners s key_cutoffs) @
           map (\<lambda>l. (l, viewFor l (Logs (MOCK_LOGS (saveCutOff cutoff userEmail now outcome s)))))
             (listeners s key_logs)"
  using assms
  by (simp_all add: saveCutOff_def Let_def logSystemAction_def notify_frame notify_delivered
      newDeliveries_def)

lemma saveCutOff_connected:
  assumes "db s"
  shows "MOCK_CUTOFFS (saveCutOff cutoff userEmail now outcome s) = MOCK_CUTOFFS s"
    and "take (Suc (length (remote s))) (remote (saveCutOff cutoff userEmail now outcome s)) =
           remote s @ [AddDoc ''cutoffs'' (CutOffPayload
              (cutoff\<lparr>co_decryptedIncome := None, co_decryptedSavings := None\<rparr>)) now]"
  using assms
  by (simp_all add: saveCutOff_def Let_def logSystemAction_def notify_frame
      split: write_outcome.splits)

lemma addSystemCategory_offline:
  assumes "\<not> db s"
    and "\<forall>c \<in> set (MOCK_CATEGORIES s). toLowerCase (c_name c) \<noteq> normalize name"
  shows "fst (addSystemCategory name adminEmail now outcome s) = Inr ()"
    and "MOCK_CATEGORIES (snd (addSystemCategory name adminEmail now outcome s)) =
           MOCK_CATEGORIES s @ [\<lparr>c_id = ''temp_'' @ natToString now, c_name = trim name,
              c_isSystemDefault = False, c_createdAt = now\<rparr>]"
    and "remote (snd (addSystemCategory name adminEmail now outcome s)) = remote s"
    and "newDeliveries s (snd (addSystemCategory name adminEmail now outcome s)) =
           map (\<lambda>l. (l, viewFor l (Categories (MOCK_CATEGORIES s @
              [\<lparr>c_id = ''temp_'' @ natToString now, c_name = trim name,
                c_isSystemDefault = False, c_createdAt = now\<rparr>]))))
             (listeners s key_categories) @
           map (\<lambda>l. (l, viewFor l (Logs (MOCK_LOGS (snd (addSystemCategory name adminEmail now outcome s))))))
             (listeners s key_logs)"
  using assms
  by (simp_all add: addSystemCategory_def Let_def logSystemAction_def notify_frame notify_delivered
      newDeliveries_def normalize_def)

lemma addSystemCategory_connected:
  assumes "db s"
    and "\<forall>c \<in> set (MOCK_CATEGORIES s). toLowerCase (c_name c) \<noteq> normalize name"
  shows "MOCK_CATEGORIES (snd (addSystemCategory name adminEmail now outcome s)) = MOCK_CATEGORIES s"
    and "take (Suc (length (remote s))) (remote (snd (addSystemCategory name adminEmail now outcome s))) =
           remote s @ [AddDoc ''categories'' (CategoryPayload (trim name) False) now]"
    and "fst (addSystemCategory name adminEmail now (Rejected message) s) = Inl (CloudError message)"
    and "fst (addSystemCategory name adminEmail now Resolved s) = Inr ()"
  using assms
  by (simp_all add: addSystemCategory_def Let_def logSystemAction_def notify_frame normalize_def
      split: write_outcome.splits)

text \<open>
  C6, as the code has it. Without the connection (\<open>db\<close> not set) \<open>saveExpense\<close>,
  \<open>saveCutOff\<close> and \<open>addSystemCategory\<close> (for a name that is not in the cache) put the
  new record into the cache at once, publish the new cache to every function registered
  on the channel and issue no request to the remote store. With the connection they
  leave the cache as it is and issue the remote write; only \<open>addSystemCategory\<close> awaits
  it and returns its rejection (the deadline's included) as an error.
\<close>

theorem optimistic_write:
  "(\<not> db s \<longrightarrow>
      MOCK_EXPENSES (saveExpense expense userEmail now outcome s) =
        expense\<lparr>e_id := natToString now\<rparr> # MOCK_EXPENSES s \<and>
      (\<forall>l \<in> set (listeners s key_expenses).
         (l, viewFor l (Expenses (expense\<lparr>e_id := natToString now\<rparr> # MOCK_EXPENSES s)))
           \<in> set (newDeliveries s (saveExpense expense userEmail now outcome s))) \<and>
      remote (saveExpense expense userEmail now outcome s) = remote s \<and>
      MOCK_CUTOFFS (saveCutOff cutoff userEmail now outcome s) =
        cutoff\<lparr>co_id := natToString now\<rparr> # MOCK_CUTOFFS s \<and>
      (\<forall>l \<in> set (listeners s key_cutoffs).
         (l, viewFor l (CutOffs (cutoff\<lparr>co_id := natToString now\<rparr> # MOCK_CUTOFFS s)))
           \<in> set (newDeliveries s (saveCutOff cutoff userEmail now outcome s))) \<and>
      remote (saveCutOff cutoff userEmail now outcome s) = remote s) \<and>
   (\<not> db s \<and> (\<forall>c \<in> set (MOCK_CATEGORIES s). toLowerCase (c_name c) \<noteq> normalize name) \<longrightarrow>
      fst (addSystemCategory name userEmail now outcome s) = Inr () \<and>
      MOCK_CATEGORIES (snd (addSystemCategory name userEmail now outcome s)) =
        MOCK_CATEGORIES s @ [\<lparr>c_id = ''temp_'' @ natToString now, c_name = trim name,
           c_isSystemDefault = False, c_createdAt = now\<rparr>] \<and>
      (\<forall>l \<in> set (listeners s key_categories).
         (l, viewFor l (Categories (MOCK_CATEGORIES s @
            [\<lparr>c_id = ''temp_'' @ natToString now, c_name = trim name,
              c_isSystemDefault = False, c_createdAt = now\<rparr>])))
           \<in> set (newDeliveries s (snd (addSystemCategory name userEmail now outcome s)))) \<and>
      remote (snd (addSystemCategory name userEmail now outcome s)) = remote s) \<and>
   (db s \<longrightarrow>
      MOCK_EXPENSES (saveExpense expense userEmail now outcome s) = MOCK_EXPENSES s \<and>
      take (Suc (length (remote s))) (remote (saveExpense expense userEmail now outcome s)) =
        remote s @ [AddDoc ''expenses'' (ExpensePayload (expense\<lparr>e_decryptedAmount := None\<rparr>)) now] \<and>
      MOCK_CUTOFFS (saveCutOff cutoff userEmail now outcome s) = MOCK_CUTOFFS s \<and>
      take (Suc (length (remote s))) (remote (saveCutOff cutoff userEmail now outcome s)) =
        remote s @ [AddDoc ''cutoffs'' (CutOffPayload
           (cutoff\<lparr>co_decryptedIncome := None, co_decryptedSavings := None\<rparr>)) now]) \<and>
   (db s \<and> (\<forall>c \<in> set (MOCK_CATEGORIES s). toLowerCase (c_name c) \<noteq> normalize name) \<longrightarrow>
      MOCK_CATEGORIES (snd (addSystemCategory name userEmail now outcome s)) = MOCK_CATEGORIES s \<and>
      take (Suc (length (remote s))) (remote (snd (addSystemCategory name userEmail now outcome s))) =
        remote s @ [AddDoc ''categories'' (CategoryPayload (trim name) False) now] \<and>
      fst (addSystemCategory name userEmail now Resolved s) = Inr () \<and>
      fst (addSystemCategory name userEmail now (Rejected message) s) = Inl (CloudError message))"
proof (intro conjI impI)
  assume off: "\<not> db s"
  show "MOCK_EXPENSES (saveExpense expense userEmail now outcome s) =
        expense\<lparr>e_id := natToString now\<rparr> # MOCK_EXPENSES s"
    and "remote (saveExpense expense userEmail now outcome s) = remote s"
    and "MOCK_CUTOFFS (saveCutOff cutoff userEmail now outcome s) =
        cutoff\<lparr>co_id := natToString now\<rparr> # MOCK_CUTOFFS s"
    and "remote (saveCutOff cutoff userEmail now outcome s) = remote s"
    using off by (simp_all add: saveExpense_offline saveCutOff_offline)
  show "\<forall>l \<in> set (listeners s key_expenses).
         (l, viewFor l (Expenses (expense\<lparr>e_id := natToString now\<rparr> # MOCK_EXPENSES s)))
           \<in> set (newDeliveries s (saveExpense expense userEmail now outcome s))"
    unfolding saveExpense_offline(3)[OF off] by auto
  show "\<forall>l \<in> set (listeners s key_cutoffs).
         (l, viewFor l (CutOffs (cutoff\<lparr>co_id := natToString now\<rparr> # MOCK_CUTOFFS s)))
           \<in> set (newDeliveries s (saveCutOff cutoff userEmail now outcome s))"
    unfolding saveCutOff_offline(3)[OF off] by auto
next
  assume a: "\<not> db s \<and> (\<forall>c \<in> set (MOCK_CATEGORIES s). toLowerCase (c_name c) \<noteq> normalize name)"
  then have off: "\<not> db s"
    and fresh: "\<forall>c \<in> set (MOCK_CATEGORIES s). toLowerCase (c_name c) \<noteq> normalize name"
    by simp_all
  show "fst (addSystemCategory name userEmail now outcome s) = Inr ()"
    and "MOCK_CATEGORIES (snd (addSystemCategory name userEmail now outcome s)) =
        MOCK_CATEGORIES s @ [\<lparr>c_id = ''temp_'' @ natToString now, c_name = trim name,
           c_isSystemDefault = False, c_createdAt = now\<rparr>]"
    and "remote (snd (addSystemCategory name userEmail now outcome s)) = remote s"
    using addSystemCategory_offline[OF off fresh] by simp_all
  show "\<forall>l \<in> set (listeners s key_categories).
         (l, viewFor l (Categories (MOCK_CATEGORIES s @
            [\<lparr>c_id = ''temp_'' @ natToString now, c_name = trim name,
              c_isSystemDefault = False, c_createdAt = now\<rparr>])))
           \<in> set (newDeliveries s (snd (addSystemCategory name userEmail now outcome s)))"
    unfolding addSystemCategory_offline(4)[OF off fresh] by auto
next
  assume on: "db s"
  show "MOCK_EXPENSES (saveExpense expense userEmail now outcome s) = MOCK_EXPENSES s"
    and "take (Suc (length (remote s))) (remote (saveExpense expense userEmail now outcome s)) =
        remote s @ [AddDoc ''expenses'' (ExpensePayload (expense\<lparr>e_decryptedAmount := None\<rparr>)) now]"
    and "MOCK_CUTOFFS (saveCutOff cutoff userEmail now outcome s) = MOCK_CUTOFFS s"
    and "take (Suc (length (remote s))) (remote (saveCutOff cutoff userEmail now outcome s)) =
        remote s @ [AddDoc ''cutoffs'' (CutOffPayload
           (cutoff\<lparr>co_decryptedIncome := None, co_decryptedSavings := None\<rparr>)) now]"
    using saveExpense_connected[OF on] saveCutOff_connected[OF on] by simp_all
next
  assume a: "db s \<and> (\<forall>c \<in> set (MOCK_CATEGORIES s). toLowerCase (c_name c) \<noteq> normalize name)"
  then have on: "db s"
    and fresh: "\<forall>c \<in> set (MOCK_CATEGORIES s). toLowerCase (c_name c) \<noteq> normalize name"
    by simp_all
  show "MOCK_CATEGORIES (snd (addSystemCategory name userEmail now outcome s)) = MOCK_CATEGORIES s"
    and "take (Suc (length (remote s))) (remote (snd (addSystemCategory name userEmail now outcome s))) =
        remote s @ [AddDoc ''categories'' (CategoryPayload (trim name) False) now]"
    and "fst (addSystemCategory name userEmail now Resolved s) = Inr ()"
    and "fst (addSystemCategory name userEmail now (Rejected message) s) = Inl (CloudError message)"
    using addSystemCategory_connected[OF on fresh] by simp_all
qed

lemma five: "natToString 5 = ''5''"
  by code_simp

lemma subscribed_example:
  "db (subscribeToExpenses ''A'' 3 (initial c :: string state)) = c"
  "MOCK_EXPENSES (subscribeToExpenses ''A'' 3 (initial c :: string state)) = []"
  "MOCK_CUTOFFS (subscribeToExpenses ''A'' 3 (initial c :: string state)) = []"
  "MOCK_CATEGORIES (subscribeToExpenses ''A'' 3 (initial c :: string state)) = []"
  "MOCK_LOGS (subscribeToExpenses ''A'' 3 (initial c :: string state)) = []"
  "remote (subscribeToExpenses ''A'' 3 (initial c :: string state)) = []"
  "listeners (subscribeToExpenses ''A'' 3 (initial c :: string state)) =
     (\<lambda>_. [])(key_expenses := [UserCallback ''A'' 3])"
  by (simp_all add: subscribeToExpenses_def pushListener_def initial_def Let_def)

theorem optimistic_write_witness:
  "\<not> db (subscribeToExpenses ''A'' 3 (initial False :: string state)) \<and>
   MOCK_EXPENSES (saveExpense (expenseOf [] ''A'') ''a@x'' 5 Resolved
      (subscribeToExpenses ''A'' 3 (initial False))) = [expenseOf ''5'' ''A''] \<and>
   (UserCallback ''A'' 3, Expenses [expenseOf ''5'' ''A''])
     \<in> set (newDeliveries (subscribeToExpenses ''A'' 3 (initial False))
          (saveExpense (expenseOf [] ''A'') ''a@x'' 5 Resolved
             (subscribeToExpenses ''A'' 3 (initial False)))) \<and>
   fst (addSystemCategory ''Food'' ''a@x'' 5 Resolved
      (subscribeToExpenses ''A'' 3 (initial False :: string state))) = Inr () \<and>
   db (subscribeToExpenses ''A'' 3 (initial True :: string state)) \<and>
   MOCK_EXPENSES (saveExpense (expenseOf [] ''A'') ''a@x'' 5 Resolved
      (subscribeToExpenses ''A'' 3 (initial True))) = [] \<and>
   fst (addSystemCategory ''Food'' ''a@x'' 5 (Rejected ''TIMEOUT'')
      (subscribeToExpenses ''A'' 3 (initial True :: string state))) = Inl (CloudError ''TIMEOUT'')"
proof -
  let ?off = "subscribeToExpenses ''A'' 3 (initial False :: string state)"
  let ?on = "subscribeToExpenses ''A'' 3 (initial True :: string state)"
  have off: "\<not> db ?off" and on: "db ?on" by (simp_all add: subscribed_example)
  have fresh: "\<forall>c \<in> set (MOCK_CATEGORIES ?off). toLowerCase (c_name c) \<noteq> normalize ''Food''"
    "\<forall>c \<in> set (MOCK_CATEGORIES ?on). toLowerCase (c_name c) \<noteq> normalize ''Food''"
    by (simp_all add: subscribed_example)
  have l: "UserCallback ''A'' 3 \<in> set (listeners ?off key_expenses)"
    by (simp add: subscribed_example)
  have e: "(expenseOf [] ''A'')\<lparr>e_id := natToString 5\<rparr> = expenseOf ''5'' ''A''"
    by (simp add: expenseOf_def five)
  note offline = optimistic_write[of ?off "expenseOf [] ''A''" "''a@x''" 5 Resolved
      "cutoffOf [] ''A''" "''Food''" "''TIMEOUT''"]
  note online = optimistic_write[of ?on "expenseOf [] ''A''" "''a@x''" 5 Resolved
      "cutoffOf [] ''A''" "''Food''" "''TIMEOUT''"]
  from offline off have "MOCK_EXPENSES (saveExpense (expenseOf [] ''A'') ''a@x'' 5 Resolved ?off) =
      (expenseOf [] ''A'')\<lparr>e_id := natToString 5\<rparr> # MOCK_EXPENSES ?off"
    by blast
  then have a1: "MOCK_EXPENSES (saveExpense (expenseOf [] ''A'') ''a@x'' 5 Resolved ?off) =
      [expenseOf ''5'' ''A'']"
    by (simp add: e subscribed_example)
  from offline off have "\<forall>l \<in> set (listeners ?off key_expenses).
      (l, viewFor l (Expenses ((expenseOf [] ''A'')\<lparr>e_id := natToString 5\<rparr> # MOCK_EXPENSES ?off)))
        \<in> set (newDeliveries ?off (saveExpense (expenseOf [] ''A'') ''a@x'' 5 Resolved ?off))"
    by blast
  with l have "(UserCallback ''A'' 3, viewFor (UserCallback ''A'' 3)
      (Expenses ((expenseOf [] ''A'')\<lparr>e_id := natToString 5\<rparr> # MOCK_EXPENSES ?off)))
        \<in> set (newDeliveries ?off (saveExpense (expenseOf [] ''A'') ''a@x'' 5 Resolved ?off))"
    by blast
  then have a2: "(UserCallback ''A'' 3, Expenses [expenseOf ''5'' ''A''])
        \<in> set (newDeliveries ?off (saveExpense (expenseOf [] ''A'') ''a@x'' 5 Resolved ?off))"
    by (simp add: e subscribed_example(2)) (simp add: expenseOf_def)
  from offline off fresh(1) have a3: "fst (addSystemCategory ''Food'' ''a@x'' 5 Resolved ?off) = Inr ()"
    by blast
  from online on have "MOCK_EXPENSES (saveExpense (expenseOf [] ''A'') ''a@x'' 5 Resolved ?on) =
      MOCK_EXPENSES ?on"
    by blast
  then have b1: "MOCK_EXPENSES (saveExpense (expenseOf [] ''A'') ''a@x'' 5 Resolved ?on) = []"
    by (simp add: subscribed_example)
  from online on fresh(2) have b2: "fst (addSystemCategory ''Food'' ''a@x'' 5 (Rejected ''TIMEOUT'') ?on)
      = Inl (CloudError ''TIMEOUT'')"
    by blast
  show ?thesis using off on a1 a2 a3 b1 b2 by blast
qed

text \<open>
  C6 as stated fails: with the connection set, \<open>saveExpense\<close> leaves the cache empty and
  calls no registered function, although an observer of the owner is subscribed.
\<close>

theorem optimistic_write_counterexample:
  "db (subscribeToExpenses ''A'' 3 (initial True :: string state)) \<and>
   MOCK_EXPENSES (saveExpense (expenseOf [] ''A'') ''a@x'' 5 Resolved
      (subscribeToExpenses ''A'' 3 (initial True))) = [] \<and>
   newDeliveries (subscribeToExpenses ''A'' 3 (initial True))
      (saveExpense (expenseOf [] ''A'') ''a@x'' 5 Resolved
         (subscribeToExpenses ''A'' 3 (initial True))) = []"
  by (simp add: saveExpense_def Let_def logSystemAction_def notify_frame notify_delivered
      newDeliveries_def subscribed_example)

section \<open>Decoding\<close>

lemma replace_startsWith:
  assumes "startsWith e p"
  shows "replace e p r = r @ drop (length p) e"
proof -
  have "e = p @ drop (length p) e"
    using assms unfolding startsWith_def by (metis append_take_drop_id)
  then show ?thesis using replace_prefix[of p "drop (length p) e" r] by simp
qed

lemma decryptData_cases:
  "decryptData e =
     (if startsWith e ''ENC_'' then
        (case atob (drop 4 e) of Some decoded \<Rightarrow> replace decoded SECRET_KEY_PREFIX [] | None \<Rightarrow> ''0'')
      else ''0'')"
proof (cases "startsWith e ''ENC_''")
  case True
  have "replace e ''ENC_'' [] = drop (length ''ENC_'') e"
    using replace_startsWith[OF True, of "[]"] by simp
  also have "\<dots> = drop 4 e" by (simp add: eval_nat_numeral)
  finally show ?thesis using True by (simp add: decryptData_def)
next
  case False
  then show ?thesis by (simp add: decryptData_def)
qed

lemma onCutoffsSnapshot_holds:
  assumes "d \<in> set coll" and "co_userId d = userId"
  shows "d\<lparr>co_decryptedIncome := Some (parseFloat E (decryptData (co_encryptedTotalIncome d))),
           co_decryptedSavings := Some (parseFloat E (decryptData (co_encryptedTotalSavings d)))\<rparr>
         \<in> set (MOCK_CUTOFFS (onCutoffsSnapshot E userId coll s))"
  using assms unfolding onCutoffsSnapshot_cache by (simp add: set_sortBy)

lemma onExpensesSnapshot_holds:
  assumes "d \<in> set coll" and "e_userId d = userId"
  shows "d\<lparr>e_decryptedAmount := Some (parseFloat E (decryptData (e_encryptedAmount d)))\<rparr>
         \<in> set (MOCK_EXPENSES (onExpensesSnapshot E userId coll s))"
  using assms unfolding onExpensesSnapshot_cache by (simp add: set_sortBy)

lemma onTemplatesSnapshot_holds:
  assumes "d \<in> set coll" and "t_userId d = userId"
  shows "d\<lparr>t_decryptedAmount := Some (parseFloat E (decryptData (t_encryptedAmount d)))\<rparr>
         \<in> set (MOCK_TEMPLATES (onTemplatesSnapshot E userId coll s))"
  using assms by (simp add: onTemplatesSnapshot_def Let_def notify_frame)

text \<open>
  C8. Decode tolerance. \<open>decryptData\<close> returns a string for every string: \<open>0\<close> when the
  tag is missing, \<open>0\<close> when the tag is there and \<open>atob\<close> rejects the rest. The snapshot
  functions of cut-offs, expenses and templates give every document of the owner its
  record in the cache, with the amounts read from whatever \<open>decryptData\<close> returns: a
  document that does not decode gets the amount of \<open>0\<close> and the others are not affected.
\<close>

theorem decode_tolerance:
  "(\<not> startsWith e ''ENC_'' \<longrightarrow> decryptData e = ''0'') \<and>
   (startsWith e ''ENC_'' \<and> atob (drop 4 e) = None \<longrightarrow> decryptData e = ''0'') \<and>
   (\<forall>d \<in> set cutoffDocs. co_userId d = userId \<longrightarrow>
      d\<lparr>co_decryptedIncome := Some (parseFloat E (decryptData (co_encryptedTotalIncome d))),
        co_decryptedSavings := Some (parseFloat E (decryptData (co_encryptedTotalSavings d)))\<rparr>
      \<in> set (MOCK_CUTOFFS (onCutoffsSnapshot E userId cutoffDocs s))) \<and>
   (\<forall>d \<in> set expenseDocs. e_userId d = userId \<longrightarrow>
      d\<lparr>e_decryptedAmount := Some (parseFloat E (decryptData (e_encryptedAmount d)))\<rparr>
      \<in> set (MOCK_EXPENSES (onExpensesSnapshot E userId expenseDocs s))) \<and>
   (\<forall>d \<in> set templateDocs. t_userId d = userId \<longrightarrow>
      d\<lparr>t_decryptedAmount := Some (parseFloat E (decryptData (t_encryptedAmount d)))\<rparr>
      \<in> set (MOCK_TEMPLATES (onTemplatesSnapshot E userId templateDocs s)))"
proof (intro conjI impI ballI)
  assume "\<not> startsWith e ''ENC_''"
  then show "decryptData e = ''0''" by (simp add: decryptData_cases)
next
  assume "startsWith e ''ENC_'' \<and> atob (drop 4 e) = None"
  then show "decryptData e = ''0''" by (simp add: decryptData_cases)
qed (rule onCutoffsSnapshot_holds onExpensesSnapshot_holds onTemplatesSnapshot_holds; assumption)+

lemma decode_examples:
  "atob (drop 4 ''ENC_!'') = None"
  "decryptData ''ENC_VEhFU0lTX1NFQ1VSRV8yNTA='' = ''250''"
  "decryptData ''ENC_VEhFU0lTX1NFQ1VSRV8xMg=='' = ''12''"
  "encryptData ''250'' = ''ENC_VEhFU0lTX1NFQ1VSRV8yNTA=''"
  by code_simp+

theorem decode_tolerance_witness:
  "\<not> startsWith ''100'' ''ENC_'' \<and> decryptData ''100'' = ''0'' \<and>
   startsWith ''ENC_!'' ''ENC_'' \<and> atob (drop 4 ''ENC_!'') = None \<and> decryptData ''ENC_!'' = ''0'' \<and>
   (cutoffOf ''k1'' ''A'')\<lparr>co_decryptedIncome := Some ''0'', co_decryptedSavings := Some ''0''\<rparr>
      \<in> set (MOCK_CUTOFFS (onCutoffsSnapshot exampleEnv ''A'' [cutoffOf ''k1'' ''A'', paidCutoff]
           (initial True))) \<and>
   paidCutoff\<lparr>co_decryptedIncome := Some ''250'', co_decryptedSavings := Some ''12''\<rparr>
      \<in> set (MOCK_CUTOFFS (onCutoffsSnapshot exampleEnv ''A'' [cutoffOf ''k1'' ''A'', paidCutoff]
           (initial True)))"
proof -
  note T = decode_tolerance[of _ "[cutoffOf ''k1'' ''A'', paidCutoff]" "''A''" exampleEnv
      "initial True" "[]" "[]"]
  have p1: "\<not> startsWith ''100'' ''ENC_''" and p2: "startsWith ''ENC_!'' ''ENC_''"
    by (simp_all add: startsWith_def)
  have p3: "atob (drop 4 ''ENC_!'') = None" by (rule decode_examples)
  from T[of "''100''"] p1 have a: "decryptData ''100'' = ''0''" by blast
  from T[of "''ENC_!''"] p2 p3 have b: "decryptData ''ENC_!'' = ''0''" by blast
  have m1: "cutoffOf ''k1'' ''A'' \<in> set [cutoffOf ''k1'' ''A'', paidCutoff]"
    and m2: "paidCutoff \<in> set [cutoffOf ''k1'' ''A'', paidCutoff]" by simp_all
  have o1: "co_userId (cutoffOf ''k1'' ''A'') = ''A''" and o2: "co_userId paidCutoff = ''A''"
    by (simp_all add: cutoffOf_def paidCutoff_def)
  from T[of "''100''"] have all: "\<forall>d \<in> set [cutoffOf ''k1'' ''A'', paidCutoff]. co_userId d = ''A'' \<longrightarrow>
      d\<lparr>co_decryptedIncome := Some (parseFloat exampleEnv (decryptData (co_encryptedTotalIncome d))),
        co_decryptedSavings := Some (parseFloat exampleEnv (decryptData (co_encryptedTotalSavings d)))\<rparr>
      \<in> set (MOCK_CUTOFFS (onCutoffsSnapshot exampleEnv ''A'' [cutoffOf ''k1'' ''A'', paidCutoff]
           (initial True)))"
    by blast
  from all m1 o1 have c: "(cutoffOf ''k1'' ''A'')\<lparr>co_decryptedIncome := Some ''0'',
        co_decryptedSavings := Some ''0''\<rparr>
      \<in> set (MOCK_CUTOFFS (onCutoffsSnapshot exampleEnv ''A'' [cutoffOf ''k1'' ''A'', paidCutoff]
           (initial True)))"
    by (simp add: exampleEnv_def cutoffOf_def a b)
  from all m2 o2 have d: "paidCutoff\<lparr>co_decryptedIncome := Some ''250'',
        co_decryptedSavings := Some ''12''\<rparr>
      \<in> set (MOCK_CUTOFFS (onCutoffsSnapshot exampleEnv ''A'' [cutoffOf ''k1'' ''A'', paidCutoff]
           (initial True)))"
    by (simp add: exampleEnv_def paidCutoff_def decode_examples)
  show ?thesis using p1 p2 p3 a b c d by blast
qed

section \<open>Who shares the published array\<close>

lemma fold_callWith_old:
  assumes "r0 \<le> safe" and "r0 \<le> fresh h" and "k < r0"
  shows "cells (snd (fold (\<lambda>cb. callWith cb safe) cbs (trace, h))) k = cells h k"
  using assms
proof (induction cbs arbitrary: trace h)
  case Nil
  then show ?case by simp
next
  case (Cons cb cbs)
  obtain trace' h' where step: "callWith cb safe (trace, h) = (trace', h')"
    by (cases "callWith cb safe (trace, h)")
  have keep: "cells h' k = cells h k" and grow: "fresh h \<le> fresh h'"
    using step Cons.prems by (cases cb; auto simp: alloc_def Let_def)+
  have "cells (snd (fold (\<lambda>cb. callWith cb safe) cbs (trace', h'))) k = cells h' k"
    using Cons.prems grow by (intro Cons.IH) simp_all
  then show ?case using step keep by simp
qed

lemma callWith_contents:
  assumes quiet: "\<forall>cb edit. ob = CallbackOf cb edit \<longrightarrow> (\<forall>xs. edit xs = xs)"
    and "safe < fresh h"
    and step: "callWith ob safe (trace, h) = (trace', h')"
  shows "map (\<lambda>(cb, r, xs). xs) trace' = map (\<lambda>(cb, r, xs). xs) trace @ [handedTo ob (cells h safe)]"
    and "cells h' safe = cells h safe"
    and "safe < fresh h'"
proof -
  show "map (\<lambda>(cb, r, xs). xs) trace' = map (\<lambda>(cb, r, xs). xs) trace @ [handedTo ob (cells h safe)]"
    using assms by (cases ob) (auto simp: alloc_def Let_def)
  show "cells h' safe = cells h safe"
    using assms by (cases ob) (auto simp: alloc_def Let_def)
  show "safe < fresh h'"
    using assms by (cases ob) (auto simp: alloc_def Let_def)
qed

lemma fold_callWith_contents:
  assumes quiet: "\<forall>cb edit. CallbackOf cb edit \<in> set cbs \<longrightarrow> (\<forall>xs. edit xs = xs)"
    and "safe < fresh h"
  shows "map (\<lambda>(cb, r, xs). xs) (fst (fold (\<lambda>cb. callWith cb safe) cbs (trace, h))) =
         map (\<lambda>(cb, r, xs). xs) trace @ map (\<lambda>ob. handedTo ob (cells h safe)) cbs"
  using assms
proof (induction cbs arbitrary: trace h)
  case Nil
  then show ?case by simp
next
  case (Cons ob cbs)
  obtain trace' h' where step: "callWith ob safe (trace, h) = (trace', h')"
    by (cases "callWith ob safe (trace, h)")
  have q: "\<forall>cb edit. ob = CallbackOf cb edit \<longrightarrow> (\<forall>xs. edit xs = xs)"
    using Cons.prems(1) by simp
  note facts = callWith_contents[OF q Cons.prems(2) step]
  have rest: "\<forall>cb edit. CallbackOf cb edit \<in> set cbs \<longrightarrow> (\<forall>xs. edit xs = xs)"
    using Cons.prems(1) by simp
  have "map (\<lambda>(cb, r, xs). xs) (fst (fold (\<lambda>cb. callWith cb safe) cbs (trace', h'))) =
         map (\<lambda>(cb, r, xs). xs) trace' @ map (\<lambda>ob. handedTo ob (cells h' safe)) cbs"
    using rest facts(3) by (rule Cons.IH)
  then show ?case using step facts(1,2) by simp
qed

lemma notifyListenersWith_old:
  assumes "k < fresh h"
  shows "cells (snd (notifyListenersWith cbs data h)) k = cells h k"
proof -
  have "cells (snd (fold (\<lambda>cb. callWith cb (fresh h)) cbs
      ([], h\<lparr>cells := (cells h)(fresh h := cells h data), fresh := Suc (fresh h)\<rparr>))) k
    = cells (h\<lparr>cells := (cells h)(fresh h := cells h data), fresh := Suc (fresh h)\<rparr>) k"
    using assms by (intro fold_callWith_old[where ?r0.0 = "fresh h"]) simp_all
  then show ?thesis using assms by (simp add: notifyListenersWith_def alloc_def)
qed

lemma notifyListenersWith_contents:
  assumes "\<forall>cb edit. CallbackOf cb edit \<in> set cbs \<longrightarrow> (\<forall>xs. edit xs = xs)"
  shows "map (\<lambda>(cb, r, xs). xs) (fst (notifyListenersWith cbs data h)) =
         map (\<lambda>ob. handedTo ob (cells h data)) cbs"
proof -
  define h1 where "h1 = h\<lparr>cells := (cells h)(fresh h := cells h data), fresh := Suc (fresh h)\<rparr>"
  have lt: "fresh h < fresh h1" by (simp add: h1_def)
  have "cells h1 (fresh h) = cells h data" by (simp add: h1_def)
  then have "map (\<lambda>(cb, r, xs). xs) (fst (fold (\<lambda>cb. callWith cb (fresh h)) cbs ([], h1))) =
         map (\<lambda>ob. handedTo ob (cells h data)) cbs"
    using fold_callWith_contents[OF assms lt, of "[]"] by simp
  then show ?thesis by (simp add: notifyListenersWith_def alloc_def h1_def)
qed

lemma fold_callWith_refs:
  "map (\<lambda>(cb, r, xs). r) (fst (fold (\<lambda>cb. callWith cb safe) cbs (trace, h))) =
   map (\<lambda>(cb, r, xs). r) trace @ refsHanded safe (fresh h) cbs"
proof (induction cbs arbitrary: trace h)
  case Nil
  then show ?case by simp
next
  case (Cons ob cbs)
  show ?case
  proof (cases ob)
    case (CallbackOf cb edit)
    then show ?thesis using Cons.IH by simp
  next
    case (UserCallbackOf owns cb edit)
    then show ?thesis using Cons.IH by (simp add: alloc_def)
  qed
qed

lemma notifyListenersWith_refs:
  "map (\<lambda>(cb, r, xs). r) (fst (notifyListenersWith cbs data h)) =
   refsHanded (fresh h) (Suc (fresh h)) cbs"
  using fold_callWith_refs[of "fresh h" cbs "[]"]
  by (simp add: notifyListenersWith_def alloc_def)

text \<open>
  C9, as the code has it. A publish makes one copy of the published array. No array
  that existed before the publish, the cached one included, is changed by it, whatever
  the callbacks do to what they are handed. When no callback registered as it is edits
  its argument, every registered function passes on the published contents (an
  owner-scoped one the owner's records): in particular on the owner-scoped channels,
  where every registered function is a \<open>userCallback\<close>. The callbacks registered as
  they are all get the same reference, that of the copy; every \<open>userCallback\<close> hands on
  a new array of its own.
\<close>

theorem published_copy:
  "(k < fresh h \<longrightarrow> cells (snd (notifyListenersWith cbs data h)) k = cells h k) \<and>
   ((\<forall>cb edit. CallbackOf cb edit \<in> set cbs \<longrightarrow> (\<forall>xs. edit xs = xs)) \<longrightarrow>
      map (\<lambda>(cb, r, xs). xs) (fst (notifyListenersWith cbs data h)) =
      map (\<lambda>ob. handedTo ob (cells h data)) cbs) \<and>
   map (\<lambda>(cb, r, xs). r) (fst (notifyListenersWith cbs data h)) =
     refsHanded (fresh h) (Suc (fresh h)) cbs"
  using notifyListenersWith_old[of k h cbs data] notifyListenersWith_contents[of cbs data h]
    notifyListenersWith_refs[of cbs data h]
  by blast

theorem published_copy_witness:
  "(0::nat) < fresh exampleStore \<and>
   cells (snd (notifyListenersWith [CallbackOf 1 pushNine, CallbackOf 2 leaveAlone] 0
      exampleStore)) 0 = [5] \<and>
   map (\<lambda>(cb, r, xs). xs) (fst (notifyListenersWith [UserCallbackOf isFive 1 pushNine,
        UserCallbackOf isFive 2 leaveAlone] 0 exampleStore)) = [[5], [5]] \<and>
   map (\<lambda>(cb, r, xs). r) (fst (notifyListenersWith [CallbackOf 1 pushNine, CallbackOf 2 leaveAlone] 0
      exampleStore)) = [1, 1]"
proof -
  have a: "(0::nat) < fresh exampleStore" by (simp add: exampleStore_def)
  have b: "\<forall>cb edit. CallbackOf cb edit \<in> set [UserCallbackOf isFive 1 pushNine,
        UserCallbackOf isFive 2 leaveAlone] \<longrightarrow> (\<forall>xs. edit xs = xs)"
    by simp
  have c: "cells exampleStore 0 = [5]" by (simp add: exampleStore_def)
  from published_copy[of 0 exampleStore "[CallbackOf 1 pushNine, CallbackOf 2 leaveAlone]" 0] a c
  have d: "cells (snd (notifyListenersWith [CallbackOf 1 pushNine, CallbackOf 2 leaveAlone] 0
      exampleStore)) 0 = [5]"
    by simp
  from published_copy[of 0 exampleStore "[UserCallbackOf isFive 1 pushNine,
        UserCallbackOf isFive 2 leaveAlone]" 0] b c
  have e: "map (\<lambda>(cb, r, xs). xs) (fst (notifyListenersWith [UserCallbackOf isFive 1 pushNine,
        UserCallbackOf isFive 2 leaveAlone] 0 exampleStore)) = [[5], [5]]"
    by (simp add: isFive_def)
  from published_copy[of 0 exampleStore "[CallbackOf 1 pushNine, CallbackOf 2 leaveAlone]" 0]
  have f: "map (\<lambda>(cb, r, xs). r) (fst (notifyListenersWith [CallbackOf 1 pushNine,
      CallbackOf 2 leaveAlone] 0 exampleStore)) = [1, 1]"
    by (simp add: exampleStore_def)
  show ?thesis using a d e f by blast
qed

text \<open>
  C9 as stated fails on a channel whose callbacks are registered as they are: the view
  \<open>[5]\<close> is published, the first callback appends to the array it is handed, and the
  second callback is handed the same array, which now holds \<open>[5, 9]\<close>.
\<close>

theorem independent_copy_counterexample:
  "fst (notifyListenersWith [CallbackOf 1 pushNine, CallbackOf 2 leaveAlone] 0 exampleStore)
     = [(1, 1, [5]), (2, 1, [5, 9])]"
  by (simp add: notifyListenersWith_def alloc_def exampleStore_def Let_def pushNine_def
      leaveAlone_def)

end
